theory Spec2Isabelle
  imports Main "HOL-Library.Sublist" "HOL-Library.Multiset"
begin

section \<open>JavaScript values and errors\<close>

text \<open>
  A value that went through \<open>JSON.parse\<close>. The storage module never looks inside the
  documents it stores; it casts the parsed value to the expected TypeScript type without
  checking it, so a parsed column is any JSON value. Numbers are restricted to integers:
  the module does no arithmetic on them.
\<close>

datatype json =
    JNull
  | JBool bool
  | JNum int
  | JStr string
  | JArr "json list"
  | JObj "(string \<times> json) list"

text \<open>JavaScript truthiness of such a value (\<open>if (v)\<close>, \<open>v || d\<close>).\<close>

fun truthy :: "json \<Rightarrow> bool" where
  "truthy JNull = False"
| "truthy (JBool b) = b"
| "truthy (JNum n) = (n \<noteq> 0)"
| "truthy (JStr s) = (s \<noteq> [])"
| "truthy (JArr xs) = True"
| "truthy (JObj kvs) = True"

text \<open>
  A thrown error: the two properties \<open>withRetry\<close> inspects, \<open>err.code\<close> and
  \<open>err.message\<close>, each possibly undefined.
\<close>

datatype js_error = JsError (code: "string option") (message: "string option")

text \<open>
  The runtime's \<open>JSON.stringify\<close> and \<open>JSON.parse\<close> are not code of this
  repository: they are a parameter of the model. \<open>JSON_parse\<close> throws on text that is
  not JSON.
\<close>

record json_runtime =
  JSON_stringify :: "json \<Rightarrow> string"
  JSON_parse :: "string \<Rightarrow> js_error + json"

text \<open>\<open>String.prototype.includes\<close>: the argument occurs as a contiguous substring.\<close>

fun str_includes :: "string \<Rightarrow> string \<Rightarrow> bool" where
  "str_includes [] t = (t = [])"
| "str_includes (c # s) t = (prefix t (c # s) \<or> str_includes s t)"

section \<open>The retry wrapper\<close>

text \<open>
  \<open>err.code === 'SQLITE_BUSY' || err.code === 'SQLITE_LOCKED' ||
  err.message?.includes('database is locked')\<close>
\<close>

definition isLockError :: "js_error \<Rightarrow> bool" where
  "isLockError err =
     (code err = Some ''SQLITE_BUSY'' \<or>
      code err = Some ''SQLITE_LOCKED'' \<or>
      (case message err of None \<Rightarrow> False | Some m \<Rightarrow> str_includes m ''database is locked''))"

text \<open>
  What a call of \<open>withRetry\<close> leaves behind: the value returned or the error thrown, the
  state of the store, and two ghost fields that record how the loop ran: the number of
  times the operation was invoked and the delays (in ms) passed to \<open>setTimeout\<close>, in order.
\<close>

datatype ('a, 's) outcome =
  Outcome (result: "js_error + 'a") (final: 's) (calls: nat) (sleeps: "int list")

text \<open>
  An operation is a function of the store that returns a value or throws, and leaves the
  store changed by the statements it ran before that. The loop variable \<open>i\<close> and
  \<open>maxRetries\<close> are JavaScript numbers; every caller uses the default 3.
\<close>

function withRetry_loop ::
  "('s \<Rightarrow> (js_error + 'a) \<times> 's) \<Rightarrow> int \<Rightarrow> int \<Rightarrow> 's \<Rightarrow> nat \<Rightarrow> int list \<Rightarrow> ('a, 's) outcome" where
  "withRetry_loop operation maxRetries i s n slept =
     (if i < maxRetries then
        (case operation s of
           (Inr v, s') \<Rightarrow> Outcome (Inr v) s' (Suc n) slept
         | (Inl err, s') \<Rightarrow>
             (if isLockError err \<and> \<not> (i = maxRetries - 1)
              then withRetry_loop operation maxRetries (i + 1) s' (Suc n) (slept @ [100 * (i + 1)])
              else Outcome (Inl err) s' (Suc n) slept))
      else Outcome (Inl (JsError None (Some ''Max retries exceeded''))) s n slept)"
  by pat_completeness auto
termination
  by (relation "measure (\<lambda>(operation, maxRetries, i, s, n, slept). nat (maxRetries - i))") auto

definition withRetry ::
  "('s \<Rightarrow> (js_error + 'a) \<times> 's) \<Rightarrow> int \<Rightarrow> 's \<Rightarrow> ('a, 's) outcome" where
  "withRetry operation maxRetries s = withRetry_loop operation maxRetries 0 s 0 []"

text \<open>
  The outcome and the store after the \<open>(k+1)\<close>-th of a run of consecutive invocations of
  an operation, the first of them on the store \<open>s\<close>.
\<close>

fun invocation :: "('s \<Rightarrow> (js_error + 'a) \<times> 's) \<Rightarrow> 's \<Rightarrow> nat \<Rightarrow> (js_error + 'a) \<times> 's" where
  "invocation operation s 0 = operation s"
| "invocation operation s (Suc k) = invocation operation (snd (operation s)) k"

definition contention :: "(js_error + 'a) \<Rightarrow> bool" where
  "contention r = (case r of Inl err \<Rightarrow> isLockError err | Inr v \<Rightarrow> False)"

section \<open>The store\<close>

text \<open>
  The tables of \<open>initializeTables\<close>, each a list of rows in rowid order. The three
  per-user document tables \<open>play_records\<close>, \<open>favorites\<close> and \<open>skip_configs\<close> have one
  shape: \<open>username\<close>, a key column (\<open>record_key\<close>, \<open>favorite_key\<close>, \<open>config_key\<close>) and
  \<open>data\<close>, with \<open>UNIQUE(username, key)\<close>; their \<open>id\<close> column is never read.
\<close>

record users_row =
  username :: string
  password :: string
  role :: string
  banned :: int
  tags :: "string option"
  enabled_apis :: "string option"

record doc_row =
  username :: string
  doc_key :: string
  data :: string

record search_history_row =
  id' :: int
  username :: string
  keyword :: string
  created_at :: int

record api_sources_row =
  key :: "string option"
  name :: string
  api :: string
  detail :: "string option"
  from_source :: string
  disabled :: int

record live_sources_row =
  key :: "string option"
  name :: string
  url :: string
  user_agent :: "string option"
  epg :: "string option"
  from_source :: string
  channel_number :: "int option"
  disabled :: int

record categories_row =
  query :: string
  type :: string
  name :: "string option"
  from_source :: string
  disabled :: int

text \<open>
  \<open>admin_config\<close> and \<open>user_groups\<close> are \<open>(name, value)\<close> tables. A \<open>TEXT PRIMARY KEY\<close>
  column of SQLite accepts NULL, and \<open>setAllUserGroups\<close>, \<open>setAllApiSources\<close> and
  \<open>setAllLiveSources\<close> bind a key that may be undefined, so those key columns are
  optional. \<open>search_history_seq\<close> is the \<open>AUTOINCREMENT\<close> counter of \<open>search_history\<close>.
\<close>

record database =
  users :: "users_row list"
  play_records :: "doc_row list"
  favorites :: "doc_row list"
  search_history :: "search_history_row list"
  search_history_seq :: int
  skip_configs :: "doc_row list"
  admin_config :: "(string \<times> string) list"
  user_groups :: "(string option \<times> string) list"
  api_sources :: "api_sources_row list"
  live_sources :: "live_sources_row list"
  categories :: "categories_row list"

text \<open>The errors the engine raises for a violated constraint.\<close>

definition SQLITE_CONSTRAINT_PRIMARYKEY :: "string \<Rightarrow> js_error" where
  "SQLITE_CONSTRAINT_PRIMARYKEY column =
     JsError (Some ''SQLITE_CONSTRAINT_PRIMARYKEY'') (Some (''UNIQUE constraint failed: '' @ column))"

definition SQLITE_CONSTRAINT_FOREIGNKEY :: js_error where
  "SQLITE_CONSTRAINT_FOREIGNKEY =
     JsError (Some ''SQLITE_CONSTRAINT_FOREIGNKEY'') (Some ''FOREIGN KEY constraint failed'')"

definition SQLITE_CONSTRAINT_NOTNULL :: "string \<Rightarrow> js_error" where
  "SQLITE_CONSTRAINT_NOTNULL column =
     JsError (Some ''SQLITE_CONSTRAINT_NOTNULL'') (Some (''NOT NULL constraint failed: '' @ column))"

definition constraint_violation :: "js_error \<Rightarrow> bool" where
  "constraint_violation err =
     (case code err of None \<Rightarrow> False | Some c \<Rightarrow> prefix ''SQLITE_CONSTRAINT'' c)"

text \<open>\<open>FOREIGN KEY (username) REFERENCES users(username)\<close>, with \<open>foreign_keys = ON\<close>.\<close>

definition user_exists :: "database \<Rightarrow> string \<Rightarrow> bool" where
  "user_exists db userName = (userName \<in> set (map users_row.username (users db)))"

text \<open>
  \<open>initializeTables\<close>: the empty tables and the seed row of the owner, from
  \<open>ADMIN_USERNAME\<close> and \<open>ADMIN_PASSWORD\<close>.
\<close>

definition initializeTables :: "string \<Rightarrow> string \<Rightarrow> database" where
  "initializeTables ADMIN_USERNAME ADMIN_PASSWORD =
     \<lparr>users = [\<lparr>users_row.username = ADMIN_USERNAME, password = ADMIN_PASSWORD,
                 role = ''owner'', banned = 0, tags = None, enabled_apis = None\<rparr>],
      play_records = [], favorites = [], search_history = [], search_history_seq = 0,
      skip_configs = [], admin_config = [], user_groups = [], api_sources = [],
      live_sources = [], categories = []\<rparr>"

section \<open>Per-user documents: play records, favourites, skip configurations\<close>

text \<open>\<open>SELECT data FROM t WHERE username = ? AND key = ?\<close>, read with \<open>stmt.get\<close>.\<close>

definition doc_select :: "doc_row list \<Rightarrow> string \<Rightarrow> string \<Rightarrow> doc_row option" where
  "doc_select rows userName k =
     find (\<lambda>row. doc_row.username row = userName \<and> doc_key row = k) rows"

text \<open>\<open>DELETE FROM t WHERE username = ? AND key = ?\<close>\<close>

definition doc_delete :: "doc_row list \<Rightarrow> string \<Rightarrow> string \<Rightarrow> doc_row list" where
  "doc_delete rows userName k =
     filter (\<lambda>row. \<not> (doc_row.username row = userName \<and> doc_key row = k)) rows"

text \<open>
  \<open>INSERT OR REPLACE INTO t (username, key, data) VALUES (?, ?, ?)\<close>: the row that
  holds the same \<open>(username, key)\<close> is deleted and the new row gets a fresh rowid; a
  username with no row in \<open>users\<close> violates the foreign key.
\<close>

definition doc_insert_or_replace ::
  "database \<Rightarrow> doc_row list \<Rightarrow> string \<Rightarrow> string \<Rightarrow> string \<Rightarrow> js_error + doc_row list" where
  "doc_insert_or_replace db rows userName k d =
     (if user_exists db userName
      then Inr (doc_delete rows userName k
                @ [\<lparr>doc_row.username = userName, doc_key = k, data = d\<rparr>])
      else Inl SQLITE_CONSTRAINT_FOREIGNKEY)"

text \<open>\<open>result[k] = v\<close> on an object whose properties are kept in insertion order.\<close>

fun assign :: "string \<Rightarrow> 'v \<Rightarrow> (string \<times> 'v) list \<Rightarrow> (string \<times> 'v) list" where
  "assign k v [] = [(k, v)]"
| "assign k v ((k', v') # kvs) = (if k = k' then (k, v) # kvs else (k', v') # assign k v kvs)"

text \<open>
  \<open>rows.forEach((row) => { result[String(row.key)] = JSON.parse(row.data) })\<close>: a row
  that does not parse throws out of the loop.
\<close>

fun doc_collect ::
  "json_runtime \<Rightarrow> doc_row list \<Rightarrow> (string \<times> json) list \<Rightarrow> js_error + (string \<times> json) list" where
  "doc_collect J [] acc = Inr acc"
| "doc_collect J (row # rows) acc =
     (case JSON_parse J (data row) of
        Inl err \<Rightarrow> Inl err
      | Inr v \<Rightarrow> doc_collect J rows (assign (doc_key row) v acc))"

definition doc_get :: "json_runtime \<Rightarrow> doc_row list \<Rightarrow> string \<Rightarrow> string \<Rightarrow> js_error + json" where
  "doc_get J rows userName k =
     (case doc_select rows userName k of
        None \<Rightarrow> Inr JNull
      | Some row \<Rightarrow> JSON_parse J (data row))"

definition doc_get_all :: "json_runtime \<Rightarrow> doc_row list \<Rightarrow> string \<Rightarrow> js_error + (string \<times> json) list" where
  "doc_get_all J rows userName =
     doc_collect J (filter (\<lambda>row. doc_row.username row = userName) rows) []"

definition getPlayRecord :: "json_runtime \<Rightarrow> database \<Rightarrow> string \<Rightarrow> string \<Rightarrow> (json, database) outcome" where
  "getPlayRecord J db userName k =
     withRetry (\<lambda>db. (doc_get J (play_records db) userName k, db)) 3 db"

definition setPlayRecord ::
  "json_runtime \<Rightarrow> database \<Rightarrow> string \<Rightarrow> string \<Rightarrow> json \<Rightarrow> (unit, database) outcome" where
  "setPlayRecord J db userName k record =
     withRetry (\<lambda>db.
        case doc_insert_or_replace db (play_records db) userName k (JSON_stringify J record) of
          Inl err \<Rightarrow> (Inl err, db)
        | Inr rows \<Rightarrow> (Inr (), db\<lparr>play_records := rows\<rparr>)) 3 db"

definition getAllPlayRecords ::
  "json_runtime \<Rightarrow> database \<Rightarrow> string \<Rightarrow> ((string \<times> json) list, database) outcome" where
  "getAllPlayRecords J db userName =
     withRetry (\<lambda>db. (doc_get_all J (play_records db) userName, db)) 3 db"

definition deletePlayRecord :: "database \<Rightarrow> string \<Rightarrow> string \<Rightarrow> (unit, database) outcome" where
  "deletePlayRecord db userName k =
     withRetry (\<lambda>db. (Inr (), db\<lparr>play_records := doc_delete (play_records db) userName k\<rparr>)) 3 db"

definition getFavorite :: "json_runtime \<Rightarrow> database \<Rightarrow> string \<Rightarrow> string \<Rightarrow> (json, database) outcome" where
  "getFavorite J db userName k =
     withRetry (\<lambda>db. (doc_get J (favorites db) userName k, db)) 3 db"

definition setFavorite ::
  "json_runtime \<Rightarrow> database \<Rightarrow> string \<Rightarrow> string \<Rightarrow> json \<Rightarrow> (unit, database) outcome" where
  "setFavorite J db userName k favorite =
     withRetry (\<lambda>db.
        case doc_insert_or_replace db (favorites db) userName k (JSON_stringify J favorite) of
          Inl err \<Rightarrow> (Inl err, db)
        | Inr rows \<Rightarrow> (Inr (), db\<lparr>favorites := rows\<rparr>)) 3 db"

definition getAllFavorites ::
  "json_runtime \<Rightarrow> database \<Rightarrow> string \<Rightarrow> ((string \<times> json) list, database) outcome" where
  "getAllFavorites J db userName =
     withRetry (\<lambda>db. (doc_get_all J (favorites db) userName, db)) 3 db"

definition deleteFavorite :: "database \<Rightarrow> string \<Rightarrow> string \<Rightarrow> (unit, database) outcome" where
  "deleteFavorite db userName k =
     withRetry (\<lambda>db. (Inr (), db\<lparr>favorites := doc_delete (favorites db) userName k\<rparr>)) 3 db"

text \<open>\<open>`${source}+${id}`\<close>\<close>

definition skipConfigKey :: "string \<Rightarrow> string \<Rightarrow> string" where
  "skipConfigKey source ident = source @ ''+'' @ ident"

definition getSkipConfig ::
  "json_runtime \<Rightarrow> database \<Rightarrow> string \<Rightarrow> string \<Rightarrow> string \<Rightarrow> (json, database) outcome" where
  "getSkipConfig J db userName source ident =
     (let k = skipConfigKey source ident
      in withRetry (\<lambda>db. (doc_get J (skip_configs db) userName k, db)) 3 db)"

definition setSkipConfig ::
  "json_runtime \<Rightarrow> database \<Rightarrow> string \<Rightarrow> string \<Rightarrow> string \<Rightarrow> json \<Rightarrow> (unit, database) outcome" where
  "setSkipConfig J db userName source ident config =
     (let k = skipConfigKey source ident
      in withRetry (\<lambda>db.
           case doc_insert_or_replace db (skip_configs db) userName k (JSON_stringify J config) of
             Inl err \<Rightarrow> (Inl err, db)
           | Inr rows \<Rightarrow> (Inr (), db\<lparr>skip_configs := rows\<rparr>)) 3 db)"

definition deleteSkipConfig :: "database \<Rightarrow> string \<Rightarrow> string \<Rightarrow> string \<Rightarrow> (unit, database) outcome" where
  "deleteSkipConfig db userName source ident =
     (let k = skipConfigKey source ident
      in withRetry (\<lambda>db. (Inr (), db\<lparr>skip_configs := doc_delete (skip_configs db) userName k\<rparr>)) 3 db)"

definition getAllSkipConfigs ::
  "json_runtime \<Rightarrow> database \<Rightarrow> string \<Rightarrow> ((string \<times> json) list, database) outcome" where
  "getAllSkipConfigs J db userName =
     withRetry (\<lambda>db. (doc_get_all J (skip_configs db) userName, db)) 3 db"

section \<open>Users\<close>

text \<open>
  \<open>INSERT INTO users (username, password, role, banned) VALUES (?, ?, 'user', 0)\<close>:
  a plain insert, so an existing username violates the primary key.
\<close>

definition registerUser :: "database \<Rightarrow> string \<Rightarrow> string \<Rightarrow> (unit, database) outcome" where
  "registerUser db userName pw =
     withRetry (\<lambda>db.
        if user_exists db userName
        then (Inl (SQLITE_CONSTRAINT_PRIMARYKEY ''users.username''), db)
        else (Inr (), db\<lparr>users := users db @
                [\<lparr>users_row.username = userName, password = pw, role = ''user'', banned = 0,
                  tags = None, enabled_apis = None\<rparr>]\<rparr>)) 3 db"

definition verifyUser :: "database \<Rightarrow> string \<Rightarrow> string \<Rightarrow> (bool, database) outcome" where
  "verifyUser db userName pw =
     withRetry (\<lambda>db.
        case find (\<lambda>row. users_row.username row = userName) (users db) of
          None \<Rightarrow> (Inr False, db)
        | Some row \<Rightarrow> (Inr (password row = pw), db)) 3 db"

definition checkUserExist :: "database \<Rightarrow> string \<Rightarrow> (bool, database) outcome" where
  "checkUserExist db userName =
     withRetry (\<lambda>db.
        (Inr (find (\<lambda>row. users_row.username row = userName) (users db) \<noteq> None), db)) 3 db"

definition changePassword :: "database \<Rightarrow> string \<Rightarrow> string \<Rightarrow> (unit, database) outcome" where
  "changePassword db userName newPassword =
     withRetry (\<lambda>db.
        (Inr (), db\<lparr>users := map (\<lambda>row. if users_row.username row = userName
                                          then row\<lparr>password := newPassword\<rparr> else row) (users db)\<rparr>)) 3 db"

text \<open>
  \<open>DELETE FROM users WHERE username = ?\<close>. Deleting a parent row deletes, by
  \<open>ON DELETE CASCADE\<close>, the rows of the four child tables that reference it; when no
  row of \<open>users\<close> is deleted nothing cascades.
\<close>

definition deleteUser :: "database \<Rightarrow> string \<Rightarrow> (unit, database) outcome" where
  "deleteUser db userName =
     withRetry (\<lambda>db.
        if user_exists db userName
        then (Inr (),
              db\<lparr>users := filter (\<lambda>row. users_row.username row \<noteq> userName) (users db),
                 play_records := filter (\<lambda>row. doc_row.username row \<noteq> userName) (play_records db),
                 favorites := filter (\<lambda>row. doc_row.username row \<noteq> userName) (favorites db),
                 search_history :=
                   filter (\<lambda>row. search_history_row.username row \<noteq> userName) (search_history db),
                 skip_configs := filter (\<lambda>row. doc_row.username row \<noteq> userName) (skip_configs db)\<rparr>)
        else (Inr (), db)) 3 db"

section \<open>Search history\<close>

definition SEARCH_HISTORY_LIMIT :: nat where
  "SEARCH_HISTORY_LIMIT = 20"

text \<open>
  \<open>SELECT ... FROM search_history WHERE username = ? ORDER BY created_at DESC LIMIT ?\<close>.
  \<open>created_at\<close> is the only sort key and it counts whole seconds. Rows with the same
  \<open>created_at\<close> come in rowid order, which is how SQLite returns them both when it
  walks \<open>idx_search_history_username_created\<close> and when it sorts a scan of the table:
  the sort is the stable \<open>sort_key\<close> over the rows in rowid order.
\<close>

definition most_recent :: "search_history_row list \<Rightarrow> string \<Rightarrow> nat \<Rightarrow> search_history_row list" where
  "most_recent rows userName limit =
     take limit (sort_key (\<lambda>row. - created_at row)
                   (filter (\<lambda>row. search_history_row.username row = userName) rows))"

definition getSearchHistory :: "database \<Rightarrow> string \<Rightarrow> (string list, database) outcome" where
  "getSearchHistory db userName =
     withRetry (\<lambda>db.
        (Inr (map keyword (most_recent (search_history db) userName SEARCH_HISTORY_LIMIT)), db)) 3 db"

text \<open>
  The three statements of \<open>addSearchHistory\<close>, each committed on its own. \<open>now\<close> is
  \<open>strftime('%s', 'now')\<close>, the clock in seconds, at the insert.
\<close>

definition search_history_delete :: "database \<Rightarrow> string \<Rightarrow> string \<Rightarrow> database" where
  "search_history_delete db userName kw =
     db\<lparr>search_history :=
          filter (\<lambda>row. \<not> (search_history_row.username row = userName \<and> keyword row = kw))
            (search_history db)\<rparr>"

definition search_history_insert :: "database \<Rightarrow> int \<Rightarrow> string \<Rightarrow> string \<Rightarrow> js_error + database" where
  "search_history_insert db now userName kw =
     (if user_exists db userName
      then Inr (db\<lparr>search_history := search_history db @
                     [\<lparr>search_history_row.id' = search_history_seq db + 1, username = userName, keyword = kw,
                       created_at = now\<rparr>],
                   search_history_seq := search_history_seq db + 1\<rparr>)
      else Inl SQLITE_CONSTRAINT_FOREIGNKEY)"

definition search_history_trim :: "database \<Rightarrow> string \<Rightarrow> nat \<Rightarrow> database" where
  "search_history_trim db userName limit =
     db\<lparr>search_history :=
          filter (\<lambda>row. \<not> (search_history_row.username row = userName \<and>
                            search_history_row.id' row \<notin> set (map search_history_row.id' (most_recent (search_history db) userName limit))))
            (search_history db)\<rparr>"

definition addSearchHistory :: "database \<Rightarrow> int \<Rightarrow> string \<Rightarrow> string \<Rightarrow> (unit, database) outcome" where
  "addSearchHistory db now userName kw =
     withRetry (\<lambda>db.
        let db1 = search_history_delete db userName kw
        in case search_history_insert db1 now userName kw of
             Inl err \<Rightarrow> (Inl err, db1)
           | Inr db2 \<Rightarrow> (Inr (), search_history_trim db2 userName SEARCH_HISTORY_LIMIT)) 3 db"

definition deleteSearchHistory :: "database \<Rightarrow> string \<Rightarrow> string option \<Rightarrow> (unit, database) outcome" where
  "deleteSearchHistory db userName kw =
     withRetry (\<lambda>db.
        case kw of
          Some k \<Rightarrow>
            if k \<noteq> [] then (Inr (), search_history_delete db userName k)
            else (Inr (), db\<lparr>search_history :=
                    filter (\<lambda>row. search_history_row.username row \<noteq> userName) (search_history db)\<rparr>)
        | None \<Rightarrow>
            (Inr (), db\<lparr>search_history :=
               filter (\<lambda>row. search_history_row.username row \<noteq> userName) (search_history db)\<rparr>)) 3 db"

section \<open>Users, user groups and sources\<close>

text \<open>
  The objects the module exchanges with its callers. The setters take \<open>Partial<...>\<close>
  values, so every property may be undefined. \<open>tags\<close> and \<open>enabledApis\<close> hold whatever
  \<open>JSON.parse\<close> returned, cast to \<open>string[]\<close> without a check.
\<close>

record User =
  username :: "string option"
  password :: "string option"
  role :: "string option"
  banned :: "bool option"
  tags :: "json option"
  enabledApis :: "json option"

record UserGroup =
  name :: "string option"
  enabledApis :: "json option"

record ApiSource =
  key :: "string option"
  name :: "string option"
  api :: "string option"
  detail :: "string option"
  from' :: "string option"
  disabled :: "bool option"

record LiveSource =
  key :: "string option"
  name :: "string option"
  url :: "string option"
  ua :: "string option"
  epg :: "string option"
  from' :: "string option"
  channelNumber :: "int option"
  disabled :: "bool option"

record Category =
  query :: "string option"
  type :: "string option"
  name :: "string option"
  from' :: "string option"
  disabled :: "bool option"

text \<open>\<open>String(v)\<close> of a text column that may be NULL.\<close>

definition String :: "string option \<Rightarrow> string" where
  "String v = (case v of None \<Rightarrow> ''null'' | Some s \<Rightarrow> s)"

text \<open>\<open>v ? String(v) : undefined\<close> of a text column that may be NULL.\<close>

definition if_set :: "string option \<Rightarrow> string option" where
  "if_set v = (case v of None \<Rightarrow> None | Some s \<Rightarrow> if s \<noteq> [] then Some s else None)"

text \<open>\<open>v || d\<close> on an optional string and on an optional parsed value.\<close>

definition or_else :: "string option \<Rightarrow> string \<Rightarrow> string" where
  "or_else v d = (case v of None \<Rightarrow> d | Some s \<Rightarrow> if s \<noteq> [] then s else d)"

definition or_empty_array :: "json option \<Rightarrow> json" where
  "or_empty_array v = (case v of None \<Rightarrow> JArr [] | Some x \<Rightarrow> if truthy x then x else JArr [])"

text \<open>\<open>b ? 1 : 0\<close>\<close>

definition flag :: "bool option \<Rightarrow> int" where
  "flag b = (if b = Some True then 1 else 0)"

text \<open>
  The \<open>try\<close> block of \<open>getAllUsers\<close>: \<open>tags\<close> is parsed first; a parse error in
  either column leaves the block, keeping what was assigned before it.
\<close>

definition parse_enabled_apis :: "json_runtime \<Rightarrow> users_row \<Rightarrow> User \<Rightarrow> User" where
  "parse_enabled_apis J row user =
     (case if_set (enabled_apis row) of
        None \<Rightarrow> user
      | Some s \<Rightarrow>
          (case JSON_parse J s of
             Inl err \<Rightarrow> user
           | Inr v \<Rightarrow> user\<lparr>User.enabledApis := Some v\<rparr>))"

definition user_of_row :: "json_runtime \<Rightarrow> bool \<Rightarrow> users_row \<Rightarrow> User" where
  "user_of_row J withPassword row =
     (let user = \<lparr>User.username = Some (users_row.username row),
                  password = (if withPassword then Some (users_row.password row) else None),
                  role = Some (or_else (Some (users_row.role row)) ''user''),
                  banned = Some (users_row.banned row \<noteq> 0),
                  tags = Some (JArr []),
                  enabledApis = Some (JArr [])\<rparr>
      in case if_set (users_row.tags row) of
           None \<Rightarrow> parse_enabled_apis J row user
         | Some s \<Rightarrow>
             (case JSON_parse J s of
                Inl err \<Rightarrow> user
              | Inr v \<Rightarrow> parse_enabled_apis J row (user\<lparr>User.tags := Some v\<rparr>)))"

definition getAllUsers :: "json_runtime \<Rightarrow> database \<Rightarrow> bool \<Rightarrow> (User list, database) outcome" where
  "getAllUsers J db withPassword =
     withRetry (\<lambda>db. (Inr (map (user_of_row J withPassword) (users db)), db)) 3 db"

text \<open>
  \<open>UPDATE users SET role = ?, banned = ?, tags = ?, enabled_apis = ? WHERE username = ?\<close>;
  an undefined \<open>user.username\<close> is bound as NULL and matches no row.
\<close>

definition update_user :: "json_runtime \<Rightarrow> User \<Rightarrow> users_row list \<Rightarrow> users_row list" where
  "update_user J user rows =
     map (\<lambda>row. if Some (users_row.username row) = User.username user
                 then row\<lparr>users_row.role := or_else (User.role user) ''user'',
                          users_row.banned := flag (User.banned user),
                          users_row.tags := Some (JSON_stringify J (or_empty_array (User.tags user))),
                          enabled_apis := Some (JSON_stringify J (or_empty_array (User.enabledApis user)))\<rparr>
                 else row) rows"

definition setAllUsers :: "json_runtime \<Rightarrow> database \<Rightarrow> User list \<Rightarrow> (unit, database) outcome" where
  "setAllUsers J db us =
     withRetry (\<lambda>db. (Inr (), db\<lparr>users := fold (update_user J) us (users db)\<rparr>)) 3 db"

text \<open>
  A loop of \<open>stmt.run\<close> calls over the input: each statement is committed on its own,
  and the first one that throws ends the loop.
\<close>

fun for_each :: "('x \<Rightarrow> 't \<Rightarrow> js_error + 't) \<Rightarrow> 'x list \<Rightarrow> 't \<Rightarrow> (js_error + unit) \<times> 't" where
  "for_each run [] t = (Inr (), t)"
| "for_each run (x # xs) t =
     (case run x t of
        Inl err \<Rightarrow> (Inl err, t)
      | Inr t' \<Rightarrow> for_each run xs t')"

text \<open>Two primary-key values conflict when both are non-NULL and equal.\<close>

definition pk_conflict :: "string option \<Rightarrow> string option \<Rightarrow> bool" where
  "pk_conflict a b = (a \<noteq> None \<and> a = b)"

definition getAllUserGroups :: "json_runtime \<Rightarrow> database \<Rightarrow> (UserGroup list, database) outcome" where
  "getAllUserGroups J db =
     withRetry (\<lambda>db.
        (Inr (map (\<lambda>(n, v).
                \<lparr>UserGroup.name = Some (String n),
                 enabledApis = Some (case JSON_parse J v of Inl err \<Rightarrow> JArr [] | Inr x \<Rightarrow> x)\<rparr>)
              (user_groups db)), db)) 3 db"

text \<open>\<open>INSERT OR REPLACE INTO user_groups (name, value) VALUES (?, ?)\<close>\<close>

definition user_groups_insert_or_replace ::
  "json_runtime \<Rightarrow> UserGroup \<Rightarrow> (string option \<times> string) list \<Rightarrow> js_error + (string option \<times> string) list" where
  "user_groups_insert_or_replace J userGroup rows =
     Inr (filter (\<lambda>(n, v). \<not> pk_conflict n (UserGroup.name userGroup)) rows
          @ [(UserGroup.name userGroup,
              JSON_stringify J (or_empty_array (UserGroup.enabledApis userGroup)))])"

definition setAllUserGroups :: "json_runtime \<Rightarrow> database \<Rightarrow> UserGroup list \<Rightarrow> (unit, database) outcome" where
  "setAllUserGroups J db userGroups =
     withRetry (\<lambda>db.
        case for_each (user_groups_insert_or_replace J) userGroups (user_groups db) of
          (r, rows) \<Rightarrow> (r, db\<lparr>user_groups := rows\<rparr>)) 3 db"

definition getAllApiSources :: "database \<Rightarrow> (ApiSource list, database) outcome" where
  "getAllApiSources db =
     withRetry (\<lambda>db.
        (Inr (map (\<lambda>row.
                \<lparr>ApiSource.key = Some (String (api_sources_row.key row)),
                 name = Some (api_sources_row.name row),
                 api = Some (api_sources_row.api row),
                 detail = if_set (api_sources_row.detail row),
                 from' = Some (api_sources_row.from_source row),
                 disabled = Some (api_sources_row.disabled row \<noteq> 0)\<rparr>)
              (api_sources db)), db)) 3 db"

text \<open>
  \<open>INSERT OR REPLACE INTO api_sources (key, name, api, detail, from_source, disabled)\<close>:
  an undefined value is bound as NULL, which the \<open>NOT NULL\<close> columns refuse.
\<close>

definition api_sources_insert_or_replace ::
  "ApiSource \<Rightarrow> api_sources_row list \<Rightarrow> js_error + api_sources_row list" where
  "api_sources_insert_or_replace apiSource rows =
     (case ApiSource.name apiSource of
        None \<Rightarrow> Inl (SQLITE_CONSTRAINT_NOTNULL ''api_sources.name'')
      | Some n \<Rightarrow>
     (case ApiSource.api apiSource of
        None \<Rightarrow> Inl (SQLITE_CONSTRAINT_NOTNULL ''api_sources.api'')
      | Some a \<Rightarrow>
     (case ApiSource.from' apiSource of
        None \<Rightarrow> Inl (SQLITE_CONSTRAINT_NOTNULL ''api_sources.from_source'')
      | Some f \<Rightarrow>
          Inr (filter (\<lambda>row. \<not> pk_conflict (api_sources_row.key row) (ApiSource.key apiSource)) rows
               @ [\<lparr>api_sources_row.key = ApiSource.key apiSource, name = n, api = a,
                   detail = ApiSource.detail apiSource, from_source = f,
                   disabled = flag (ApiSource.disabled apiSource)\<rparr>]))))"

definition setAllApiSources :: "database \<Rightarrow> ApiSource list \<Rightarrow> (unit, database) outcome" where
  "setAllApiSources db apiSources =
     withRetry (\<lambda>db.
        case for_each api_sources_insert_or_replace apiSources (api_sources db) of
          (r, rows) \<Rightarrow> (r, db\<lparr>api_sources := rows\<rparr>)) 3 db"

definition getAllLiveSources :: "database \<Rightarrow> (LiveSource list, database) outcome" where
  "getAllLiveSources db =
     withRetry (\<lambda>db.
        (Inr (map (\<lambda>row.
                \<lparr>LiveSource.key = Some (String (live_sources_row.key row)),
                 name = Some (live_sources_row.name row),
                 url = Some (live_sources_row.url row),
                 ua = if_set (live_sources_row.user_agent row),
                 epg = if_set (live_sources_row.epg row),
                 from' = Some (live_sources_row.from_source row),
                 channelNumber =
                   (case live_sources_row.channel_number row of
                      None \<Rightarrow> None
                    | Some c \<Rightarrow> if c \<noteq> 0 then Some c else None),
                 disabled = Some (live_sources_row.disabled row \<noteq> 0)\<rparr>)
              (live_sources db)), db)) 3 db"

definition live_sources_insert_or_replace ::
  "LiveSource \<Rightarrow> live_sources_row list \<Rightarrow> js_error + live_sources_row list" where
  "live_sources_insert_or_replace liveSource rows =
     (case LiveSource.name liveSource of
        None \<Rightarrow> Inl (SQLITE_CONSTRAINT_NOTNULL ''live_sources.name'')
      | Some n \<Rightarrow>
     (case LiveSource.url liveSource of
        None \<Rightarrow> Inl (SQLITE_CONSTRAINT_NOTNULL ''live_sources.url'')
      | Some u \<Rightarrow>
     (case LiveSource.from' liveSource of
        None \<Rightarrow> Inl (SQLITE_CONSTRAINT_NOTNULL ''live_sources.from_source'')
      | Some f \<Rightarrow>
          Inr (filter (\<lambda>row. \<not> pk_conflict (live_sources_row.key row) (LiveSource.key liveSource)) rows
               @ [\<lparr>live_sources_row.key = LiveSource.key liveSource, name = n, url = u,
                   user_agent = LiveSource.ua liveSource, epg = LiveSource.epg liveSource,
                   from_source = f, channel_number = LiveSource.channelNumber liveSource,
                   disabled = flag (LiveSource.disabled liveSource)\<rparr>]))))"

definition setAllLiveSources :: "database \<Rightarrow> LiveSource list \<Rightarrow> (unit, database) outcome" where
  "setAllLiveSources db liveSources =
     withRetry (\<lambda>db.
        case for_each live_sources_insert_or_replace liveSources (live_sources db) of
          (r, rows) \<Rightarrow> (r, db\<lparr>live_sources := rows\<rparr>)) 3 db"

definition getAllCategories :: "database \<Rightarrow> (Category list, database) outcome" where
  "getAllCategories db =
     withRetry (\<lambda>db.
        (Inr (map (\<lambda>row.
                \<lparr>Category.query = Some (categories_row.query row),
                 type = Some (categories_row.type row),
                 name = if_set (categories_row.name row),
                 from' = Some (categories_row.from_source row),
                 disabled = Some (categories_row.disabled row \<noteq> 0)\<rparr>)
              (categories db)), db)) 3 db"

text \<open>\<open>PRIMARY KEY (query, type)\<close>, both columns \<open>NOT NULL\<close>.\<close>

definition categories_insert_or_replace ::
  "Category \<Rightarrow> categories_row list \<Rightarrow> js_error + categories_row list" where
  "categories_insert_or_replace category rows =
     (case Category.query category of
        None \<Rightarrow> Inl (SQLITE_CONSTRAINT_NOTNULL ''categories.query'')
      | Some q \<Rightarrow>
     (case Category.type category of
        None \<Rightarrow> Inl (SQLITE_CONSTRAINT_NOTNULL ''categories.type'')
      | Some t \<Rightarrow>
     (case Category.from' category of
        None \<Rightarrow> Inl (SQLITE_CONSTRAINT_NOTNULL ''categories.from_source'')
      | Some f \<Rightarrow>
          Inr (filter (\<lambda>row. \<not> (categories_row.query row = q \<and> categories_row.type row = t)) rows
               @ [\<lparr>categories_row.query = q, type = t, name = Category.name category,
                   from_source = f, disabled = flag (Category.disabled category)\<rparr>]))))"

definition setAllCategories :: "database \<Rightarrow> Category list \<Rightarrow> (unit, database) outcome" where
  "setAllCategories db cats =
     withRetry (\<lambda>db.
        case for_each categories_insert_or_replace cats (categories db) of
          (r, rows) \<Rightarrow> (r, db\<lparr>categories := rows\<rparr>)) 3 db"

section \<open>The administrator's configuration\<close>

record UserConfig =
  Users :: "User list"
  Tags :: "UserGroup list option"

record AdminConfig =
  ConfigSubscribtion :: json
  ConfigFile :: string
  SiteConfig :: json
  UserConfig :: UserConfig
  SourceConfig :: "ApiSource list"
  CustomCategories :: "Category list"
  LiveConfig :: "LiveSource list option"

text \<open>
  The environment variables \<open>getAdminConfig\<close> reads. \<open>NEXT_PUBLIC_SEARCH_MAX_PAGE\<close> is
  the value of \<open>Number(process.env.NEXT_PUBLIC_SEARCH_MAX_PAGE)\<close>, \<open>None\<close> when that is NaN.
\<close>

record env =
  NEXT_PUBLIC_SITE_NAME :: "string option"
  ANNOUNCEMENT :: "string option"
  NEXT_PUBLIC_SEARCH_MAX_PAGE :: "int option"
  NEXT_PUBLIC_DOUBAN_PROXY_TYPE :: "string option"
  NEXT_PUBLIC_DOUBAN_PROXY :: "string option"
  NEXT_PUBLIC_DOUBAN_IMAGE_PROXY_TYPE :: "string option"
  NEXT_PUBLIC_DOUBAN_IMAGE_PROXY :: "string option"
  NEXT_PUBLIC_DISABLE_YELLOW_FILTER :: "string option"
  NEXT_PUBLIC_FLUID_SEARCH :: "string option"

text \<open>The default announcement, as the bytes of its UTF-8 encoding.\<close>

definition default_announcement :: string where
  "default_announcement =
     [CHR 0xE6, CHR 0x9C, CHR 0xAC, CHR 0xE7, CHR 0xBD, CHR 0x91, CHR 0xE7, CHR 0xAB, CHR
      0x99, CHR 0xE4, CHR 0xBB, CHR 0x85, CHR 0xE6, CHR 0x8F, CHR 0x90, CHR 0xE4, CHR 0xBE,
      CHR 0x9B, CHR 0xE5, CHR 0xBD, CHR 0xB1, CHR 0xE8, CHR 0xA7, CHR 0x86, CHR 0xE4, CHR
      0xBF, CHR 0xA1, CHR 0xE6, CHR 0x81, CHR 0xAF, CHR 0xE6, CHR 0x90, CHR 0x9C, CHR 0xE7,
      CHR 0xB4, CHR 0xA2, CHR 0xE6, CHR 0x9C, CHR 0x8D, CHR 0xE5, CHR 0x8A, CHR 0xA1, CHR
      0xEF, CHR 0xBC, CHR 0x8C, CHR 0xE6, CHR 0x89, CHR 0x80, CHR 0xE6, CHR 0x9C, CHR 0x89,
      CHR 0xE5, CHR 0x86, CHR 0x85, CHR 0xE5, CHR 0xAE, CHR 0xB9, CHR 0xE5, CHR 0x9D, CHR
      0x87, CHR 0xE6, CHR 0x9D, CHR 0xA5, CHR 0xE8, CHR 0x87, CHR 0xAA, CHR 0xE7, CHR 0xAC,
      CHR 0xAC, CHR 0xE4, CHR 0xB8, CHR 0x89, CHR 0xE6, CHR 0x96, CHR 0xB9, CHR 0xE7, CHR
      0xBD, CHR 0x91, CHR 0xE7, CHR 0xAB, CHR 0x99, CHR 0xE3, CHR 0x80, CHR 0x82, CHR 0xE6,
      CHR 0x9C, CHR 0xAC, CHR 0xE7, CHR 0xAB, CHR 0x99, CHR 0xE4, CHR 0xB8, CHR 0x8D, CHR
      0xE5, CHR 0xAD, CHR 0x98, CHR 0xE5, CHR 0x82, CHR 0xA8, CHR 0xE4, CHR 0xBB, CHR 0xBB,
      CHR 0xE4, CHR 0xBD, CHR 0x95, CHR 0xE8, CHR 0xA7, CHR 0x86, CHR 0xE9, CHR 0xA2, CHR
      0x91, CHR 0xE8, CHR 0xB5, CHR 0x84, CHR 0xE6, CHR 0xBA, CHR 0x90, CHR 0xEF, CHR 0xBC,
      CHR 0x8C, CHR 0xE4, CHR 0xB8, CHR 0x8D, CHR 0xE5, CHR 0xAF, CHR 0xB9, CHR 0xE4, CHR
      0xBB, CHR 0xBB, CHR 0xE4, CHR 0xBD, CHR 0x95, CHR 0xE5, CHR 0x86, CHR 0x85, CHR 0xE5,
      CHR 0xAE, CHR 0xB9, CHR 0xE7, CHR 0x9A, CHR 0x84, CHR 0xE5, CHR 0x87, CHR 0x86, CHR
      0xE7, CHR 0xA1, CHR 0xAE, CHR 0xE6, CHR 0x80, CHR 0xA7, CHR 0xE3, CHR 0x80, CHR 0x81,
      CHR 0xE5, CHR 0x90, CHR 0x88, CHR 0xE6, CHR 0xB3, CHR 0x95, CHR 0xE6, CHR 0x80, CHR
      0xA7, CHR 0xE3, CHR 0x80, CHR 0x81, CHR 0xE5, CHR 0xAE, CHR 0x8C, CHR 0xE6, CHR 0x95,
      CHR 0xB4, CHR 0xE6, CHR 0x80, CHR 0xA7, CHR 0xE8, CHR 0xB4, CHR 0x9F, CHR 0xE8, CHR
      0xB4, CHR 0xA3, CHR 0xE3, CHR 0x80, CHR 0x82]"

definition default_config :: "env \<Rightarrow> AdminConfig" where
  "default_config e =
     \<lparr>ConfigSubscribtion =
        JObj [(''URL'', JStr ''''), (''AutoUpdate'', JBool False), (''LastCheck'', JStr '''')],
      ConfigFile = '''',
      SiteConfig = JObj
        [(''SiteName'', JStr (or_else (NEXT_PUBLIC_SITE_NAME e) ''LunaTV'')),
         (''Announcement'', JStr (or_else (ANNOUNCEMENT e) default_announcement)),
         (''SearchDownstreamMaxPage'',
            JNum (case NEXT_PUBLIC_SEARCH_MAX_PAGE e of
                    None \<Rightarrow> 5
                  | Some n \<Rightarrow> if n \<noteq> 0 then n else 5)),
         (''SiteInterfaceCacheTime'', JNum 7200),
         (''DoubanProxyType'',
            JStr (or_else (NEXT_PUBLIC_DOUBAN_PROXY_TYPE e) ''cmliussss-cdn-tencent'')),
         (''DoubanProxy'', JStr (or_else (NEXT_PUBLIC_DOUBAN_PROXY e) '''')),
         (''DoubanImageProxyType'',
            JStr (or_else (NEXT_PUBLIC_DOUBAN_IMAGE_PROXY_TYPE e) ''cmliussss-cdn-tencent'')),
         (''DoubanImageProxy'', JStr (or_else (NEXT_PUBLIC_DOUBAN_IMAGE_PROXY e) '''')),
         (''DisableYellowFilter'', JBool (NEXT_PUBLIC_DISABLE_YELLOW_FILTER e = Some ''true'')),
         (''FluidSearch'', JBool (NEXT_PUBLIC_FLUID_SEARCH e \<noteq> Some ''false''))],
      UserConfig = \<lparr>Users = [], Tags = None\<rparr>,
      SourceConfig = [],
      CustomCategories = [],
      LiveConfig = Some []\<rparr>"

text \<open>
  The \<open>rows.forEach\<close> of \<open>getAdminConfig\<close>, inside its \<open>try\<close>. Six names have a branch.
  The values parsed for \<open>source_config\<close>, \<open>custom_categories\<close> and \<open>live_config\<close> are
  assigned to fields that the function overwrites afterwards from the tables, so only
  the parse itself, which may throw, is kept for them.
\<close>

fun overlay :: "json_runtime \<Rightarrow> (string \<times> string) list \<Rightarrow> AdminConfig \<Rightarrow> js_error + AdminConfig" where
  "overlay J [] config = Inr config"
| "overlay J ((n, v) # rows) config =
     (if n = ''config_file'' then overlay J rows (config\<lparr>ConfigFile := v\<rparr>)
      else if n = ''config_subscription'' then
        (case JSON_parse J v of
           Inl err \<Rightarrow> Inl err
         | Inr x \<Rightarrow> overlay J rows (config\<lparr>ConfigSubscribtion := x\<rparr>))
      else if n = ''site_config'' then
        (case JSON_parse J v of
           Inl err \<Rightarrow> Inl err
         | Inr x \<Rightarrow> overlay J rows (config\<lparr>SiteConfig := x\<rparr>))
      else if n = ''source_config'' \<or> n = ''custom_categories'' \<or> n = ''live_config'' then
        (case JSON_parse J v of
           Inl err \<Rightarrow> Inl err
         | Inr x \<Rightarrow> overlay J rows config)
      else overlay J rows config)"

text \<open>
  \<open>getAdminConfig\<close> and \<open>setAdminConfig\<close> hand \<open>withRetry\<close> an \<open>async\<close> operation. Calling
  it returns a promise and never throws into the \<open>try\<close> block, and \<open>return operation()\<close>
  passes the promise on without awaiting it: a rejection goes past the \<open>catch\<close> clause
  to the caller, and the operation runs once.
\<close>

definition withRetry_async ::
  "('s \<Rightarrow> (js_error + 'a) \<times> 's) \<Rightarrow> int \<Rightarrow> 's \<Rightarrow> ('a, 's) outcome" where
  "withRetry_async operation maxRetries s =
     (if 0 < maxRetries
      then (case operation s of (r, s') \<Rightarrow> Outcome r s' 1 [])
      else Outcome (Inl (JsError None (Some ''Max retries exceeded''))) s 0 [])"

text \<open>\<open>await\<close> of a repository call inside an \<open>async\<close> body: a rejection leaves the body.\<close>

definition await ::
  "('a, database) outcome \<Rightarrow> ('a \<Rightarrow> database \<Rightarrow> (js_error + 'b) \<times> database) \<Rightarrow> (js_error + 'b) \<times> database" where
  "await call continue =
     (case result call of
        Inl err \<Rightarrow> (Inl err, final call)
      | Inr v \<Rightarrow> continue v (final call))"

definition getAdminConfig :: "json_runtime \<Rightarrow> env \<Rightarrow> database \<Rightarrow> (AdminConfig option, database) outcome" where
  "getAdminConfig J e db =
     withRetry_async (\<lambda>db.
        case overlay J (admin_config db) (default_config e) of
          Inl err \<Rightarrow> (Inr None, db)
        | Inr config \<Rightarrow>
            await (getAllUsers J db False) (\<lambda>allUsers db.
            await (getAllUserGroups J db) (\<lambda>allUserGroups db.
            await (getAllApiSources db) (\<lambda>allApiSources db.
            await (getAllLiveSources db) (\<lambda>allLiveSources db.
            await (getAllCategories db) (\<lambda>allCategories db.
              (Inr (Some (config\<lparr>UserConfig := \<lparr>Users = allUsers, Tags = Some allUserGroups\<rparr>,
                                  SourceConfig := allApiSources,
                                  LiveConfig := Some allLiveSources,
                                  CustomCategories := allCategories\<rparr>)), db))))))) 3 db"

text \<open>\<open>INSERT OR REPLACE INTO admin_config (name, value) VALUES (?, ?)\<close>\<close>

definition admin_config_insert_or_replace :: "database \<Rightarrow> string \<Rightarrow> string \<Rightarrow> database" where
  "admin_config_insert_or_replace db n v =
     db\<lparr>admin_config := filter (\<lambda>(n', v'). n' \<noteq> n) (admin_config db) @ [(n, v)]\<rparr>"

definition setAdminConfig :: "json_runtime \<Rightarrow> database \<Rightarrow> AdminConfig \<Rightarrow> (unit, database) outcome" where
  "setAdminConfig J db config =
     withRetry_async (\<lambda>db.
        let db1 = (if ConfigFile config \<noteq> []
                   then admin_config_insert_or_replace db ''config_file'' (ConfigFile config)
                   else db);
            db2 = (if truthy (ConfigSubscribtion config)
                   then admin_config_insert_or_replace db1 ''config_subscription''
                          (JSON_stringify J (ConfigSubscribtion config))
                   else db1);
            db3 = (if truthy (SiteConfig config)
                   then admin_config_insert_or_replace db2 ''site_config''
                          (JSON_stringify J (SiteConfig config))
                   else db2)
        in await (setAllUsers J db3 (Users (UserConfig config))) (\<lambda>u db.
           await (case Tags (UserConfig config) of
                    None \<Rightarrow> Outcome (Inr ()) db 0 []
                  | Some groups \<Rightarrow> setAllUserGroups J db groups) (\<lambda>u db.
           await (setAllApiSources db (SourceConfig config)) (\<lambda>u db.
           await (setAllCategories db (CustomCategories config)) (\<lambda>u db.
           await (case LiveConfig config of
                    None \<Rightarrow> Outcome (Inr ()) db 0 []
                  | Some sources \<Rightarrow> setAllLiveSources db sources) (\<lambda>u db.
             (Inr (), db))))))) 3 db"

section \<open>Well-formed stores\<close>

text \<open>
  What the engine maintains with \<open>foreign_keys = ON\<close>: every row of the four child
  tables names a row of \<open>users\<close>.
\<close>

definition foreign_keys_ok :: "database \<Rightarrow> bool" where
  "foreign_keys_ok db =
     (list_all (\<lambda>row. user_exists db (doc_row.username row)) (play_records db) \<and>
      list_all (\<lambda>row. user_exists db (doc_row.username row)) (favorites db) \<and>
      list_all (\<lambda>row. user_exists db (search_history_row.username row)) (search_history db) \<and>
      list_all (\<lambda>row. user_exists db (doc_row.username row)) (skip_configs db))"

section \<open>A reference JSON runtime\<close>

text \<open>
  A printer and a parser for the JSON texts of the values above, to run the model on
  concrete stores. Strings are printable ASCII; the parser reads the escapes
  \<open>\"\<close>, \<open>\\\<close>, \<open>\/\<close>, \<open>\b\<close>, \<open>\f\<close>, \<open>\n\<close>, \<open>\r\<close>, \<open>\t\<close> and integer literals.
\<close>

definition digit :: "nat \<Rightarrow> char" where
  "digit n = ''0123456789'' ! (n mod 10)"

function decimal :: "nat \<Rightarrow> string" where
  "decimal n = (if n < 10 then [digit n] else decimal (n div 10) @ [digit n])"
  by pat_completeness auto
termination
  by (relation "measure id") auto

definition quote :: "string \<Rightarrow> string" where
  "quote s =
     [CHR 0x22] @
     concat (map (\<lambda>c. if c = CHR 0x22 \<or> c = CHR 0x5C then [CHR 0x5C, c] else [c]) s) @
     [CHR 0x22]"

fun separate :: "string \<Rightarrow> string list \<Rightarrow> string" where
  "separate sep [] = []"
| "separate sep [x] = x"
| "separate sep (x # y # ys) = x @ sep @ separate sep (y # ys)"

fun stringify :: "json \<Rightarrow> string" where
  "stringify JNull = ''null''"
| "stringify (JBool b) = (if b then ''true'' else ''false'')"
| "stringify (JNum n) = (if n < 0 then ''-'' @ decimal (nat (- n)) else decimal (nat n))"
| "stringify (JStr s) = quote s"
| "stringify (JArr xs) = ''['' @ separate '','' (map stringify xs) @ '']''"
| "stringify (JObj kvs) =
     ''{'' @ separate '','' (map (\<lambda>(k, v). quote k @ '':'' @ stringify v) kvs) @ ''}''"

definition is_space :: "char \<Rightarrow> bool" where
  "is_space c = (c = CHR 0x20 \<or> c = CHR 0x0A \<or> c = CHR 0x0D \<or> c = CHR 0x09)"

definition is_digit :: "char \<Rightarrow> bool" where
  "is_digit c = (c \<in> set ''0123456789'')"

definition digit_value :: "char \<Rightarrow> nat" where
  "digit_value c = length (takeWhile (\<lambda>d. d \<noteq> c) ''0123456789'')"

definition unescape :: "char \<Rightarrow> char option" where
  "unescape c =
     (if c = CHR 0x22 \<or> c = CHR 0x5C \<or> c = CHR ''/'' then Some c
      else if c = CHR ''b'' then Some (CHR 0x08)
      else if c = CHR ''f'' then Some (CHR 0x0C)
      else if c = CHR ''n'' then Some (CHR 0x0A)
      else if c = CHR ''r'' then Some (CHR 0x0D)
      else if c = CHR ''t'' then Some (CHR 0x09)
      else None)"

text \<open>The characters of a string literal after its opening quote, and the rest.\<close>

fun parse_chars :: "string \<Rightarrow> string \<Rightarrow> (string \<times> string) option" where
  "parse_chars [] acc = None"
| "parse_chars [c] acc = (if c = CHR 0x22 then Some (rev acc, []) else None)"
| "parse_chars (c # d # cs) acc =
     (if c = CHR 0x22 then Some (rev acc, d # cs)
      else if c = CHR 0x5C then
        (case unescape d of None \<Rightarrow> None | Some x \<Rightarrow> parse_chars cs (x # acc))
      else if (of_char c :: nat) < 32 then None
      else parse_chars (d # cs) (c # acc))"

definition parse_digits :: "string \<Rightarrow> (nat \<times> string) option" where
  "parse_digits s =
     (let ds = takeWhile is_digit s
      in if ds = [] \<or> (hd ds = CHR ''0'' \<and> length ds > 1) then None
         else Some (foldl (\<lambda>n c. 10 * n + digit_value c) 0 ds, dropWhile is_digit s))"

text \<open>
  The parser proper, by recursive descent; the first argument bounds the depth of the
  recursion and \<open>parse\<close> gives it more than the text can use.
\<close>

fun parse_value :: "nat \<Rightarrow> string \<Rightarrow> (json \<times> string) option"
  and parse_elements :: "nat \<Rightarrow> string \<Rightarrow> (json list \<times> string) option"
  and parse_members :: "nat \<Rightarrow> string \<Rightarrow> ((string \<times> json) list \<times> string) option" where
  "parse_value 0 s = None"
| "parse_value (Suc n) s =
     (case dropWhile is_space s of
        [] \<Rightarrow> None
      | c # cs \<Rightarrow>
          if c = CHR 0x22 then map_option (\<lambda>(x, r). (JStr x, r)) (parse_chars cs [])
          else if c = CHR ''['' then
            (if take 1 (dropWhile is_space cs) = '']''
             then Some (JArr [], drop 1 (dropWhile is_space cs))
             else map_option (\<lambda>(xs, r). (JArr xs, r)) (parse_elements n cs))
          else if c = CHR ''{'' then
            (if take 1 (dropWhile is_space cs) = ''}''
             then Some (JObj [], drop 1 (dropWhile is_space cs))
             else map_option (\<lambda>(kvs, r). (JObj kvs, r)) (parse_members n cs))
          else if take 4 (c # cs) = ''true'' then Some (JBool True, drop 4 (c # cs))
          else if take 5 (c # cs) = ''false'' then Some (JBool False, drop 5 (c # cs))
          else if take 4 (c # cs) = ''null'' then Some (JNull, drop 4 (c # cs))
          else if c = CHR ''-'' then map_option (\<lambda>(m, r). (JNum (- int m), r)) (parse_digits cs)
          else map_option (\<lambda>(m, r). (JNum (int m), r)) (parse_digits (c # cs)))"
| "parse_elements 0 s = None"
| "parse_elements (Suc n) s =
     (case parse_value n s of
        None \<Rightarrow> None
      | Some (v, r) \<Rightarrow>
          (case dropWhile is_space r of
             [] \<Rightarrow> None
           | c # r' \<Rightarrow>
               if c = CHR '','' then map_option (\<lambda>(vs, r''). (v # vs, r'')) (parse_elements n r')
               else if c = CHR '']'' then Some ([v], r')
               else None))"
| "parse_members 0 s = None"
| "parse_members (Suc n) s =
     (case dropWhile is_space s of
        [] \<Rightarrow> None
      | q # s1 \<Rightarrow>
          if q \<noteq> CHR 0x22 then None
          else
            (case parse_chars s1 [] of
               None \<Rightarrow> None
             | Some (k, s2) \<Rightarrow>
                 (case dropWhile is_space s2 of
                    [] \<Rightarrow> None
                  | colon # s3 \<Rightarrow>
                      if colon \<noteq> CHR '':'' then None
                      else
                        (case parse_value n s3 of
                           None \<Rightarrow> None
                         | Some (v, r) \<Rightarrow>
                             (case dropWhile is_space r of
                                [] \<Rightarrow> None
                              | c # r' \<Rightarrow>
                                  if c = CHR '','' then
                                    map_option (\<lambda>(kvs, r''). ((k, v) # kvs, r'')) (parse_members n r')
                                  else if c = CHR ''}'' then Some ([(k, v)], r')
                                  else None)))))"

definition SyntaxError :: js_error where
  "SyntaxError = JsError None (Some ''Unexpected token in JSON'')"

text \<open>An object keeps, for a repeated name, the last value at the first position.\<close>

fun normalise :: "json \<Rightarrow> json" where
  "normalise (JArr xs) = JArr (map normalise xs)"
| "normalise (JObj kvs) = JObj (fold (\<lambda>(k, v). assign k (normalise v)) kvs [])"
| "normalise v = v"

definition parse :: "string \<Rightarrow> js_error + json" where
  "parse s =
     (case parse_value (2 * length s + 2) s of
        None \<Rightarrow> Inl SyntaxError
      | Some (v, r) \<Rightarrow> if dropWhile is_space r = [] then Inr (normalise v) else Inl SyntaxError)"

definition reference_runtime :: json_runtime where
  "reference_runtime = \<lparr>JSON_stringify = stringify, JSON_parse = parse\<rparr>"

section \<open>Sample stores\<close>

text \<open>
  A freshly initialised store in which one user has registered, a document, and an
  operation that meets contention on its first invocation and a violated constraint on
  its second (its state counts the invocations).
\<close>

definition sample_db :: database where
  "sample_db = final (registerUser (initializeTables ''admin'' ''admin-pw'') ''alice'' ''pw1'')"

definition sample_doc :: json where
  "sample_doc = JObj [(''title'', JStr ''Film''), (''index'', JNum 3), (''tags'', JArr [JBool True, JNull])]"


text \<open>
  A store in which two users hold rows in every per-user table, and one in which the
  trim of \<open>addSearchHistory\<close> never ran: 25 rows of one user.
\<close>

definition two_users_db :: database where
  "two_users_db =
     (let db0 = final (registerUser sample_db ''bob'' ''pw2'');
          db1 = final (setPlayRecord reference_runtime db0 ''alice'' ''src+1'' sample_doc);
          db2 = final (setPlayRecord reference_runtime db1 ''bob'' ''src+1'' (JNum 7));
          db3 = final (setFavorite reference_runtime db2 ''alice'' ''src+2'' sample_doc);
          db4 = final (setFavorite reference_runtime db3 ''bob'' ''src+2'' (JStr ''b''));
          db5 = final (addSearchHistory db4 1000 ''alice'' ''matrix'');
          db6 = final (addSearchHistory db5 1001 ''bob'' ''alien'');
          db7 = final (setSkipConfig reference_runtime db6 ''alice'' ''src1'' ''ep1'' sample_doc)
      in final (setSkipConfig reference_runtime db7 ''bob'' ''src1'' ''ep1'' JNull))"

definition untrimmed_db :: database where
  "untrimmed_db =
     sample_db\<lparr>search_history :=
                  map (\<lambda>i. \<lparr>search_history_row.id' = i, username = ''alice'',
                            keyword = decimal (nat i), created_at = 1000 + i\<rparr>) [1..25],
                search_history_seq := 25\<rparr>"

text \<open>
  A user list as \<open>setAllUsers\<close> receives it: an entry for a registered user, carrying
  a password property the statement never binds, and an entry for nobody.
\<close>

definition sample_users :: "User list" where
  "sample_users =
     [\<lparr>User.username = Some ''alice'', password = Some ''changed'', role = Some ''admin'',
       banned = Some True, tags = Some (JArr [JStr ''vip'']), enabledApis = None\<rparr>,
      \<lparr>User.username = Some ''carol'', password = Some ''pw3'', role = None,
       banned = None, tags = None, enabledApis = None\<rparr>]"

text \<open>
  A run of \<open>addSearchHistory\<close> calls for one user, each with the clock reading of its
  insert; the rows of one user, in rowid order; and the last \<open>n\<close> elements of a list.
\<close>

definition add_all :: "database \<Rightarrow> string \<Rightarrow> (int \<times> string) list \<Rightarrow> database" where
  "add_all db userName searches =
     fold (\<lambda>(now, kw) db. final (addSearchHistory db now userName kw)) searches db"

definition user_history :: "database \<Rightarrow> string \<Rightarrow> search_history_row list" where
  "user_history db userName =
     filter (\<lambda>row. search_history_row.username row = userName) (search_history db)"

definition last_n :: "nat \<Rightarrow> 'a list \<Rightarrow> 'a list" where
  "last_n n xs = drop (length xs - n) xs"

text \<open>
  What \<open>AUTOINCREMENT\<close> maintains, and a clock that moved on between the inserts of a
  user: the ids are distinct and not above the counter, and the rows of the user have
  strictly increasing \<open>created_at\<close>.
\<close>

definition history_ok :: "database \<Rightarrow> string \<Rightarrow> bool" where
  "history_ok db userName =
     (sorted_wrt (<) (map created_at (user_history db userName)) \<and>
      distinct (map search_history_row.id' (search_history db)) \<and>
      list_all (\<lambda>row. search_history_row.id' row \<le> search_history_seq db) (search_history db))"

section \<open>Reading the administrator's settings\<close>

text \<open>
  The names \<open>getAdminConfig\<close> has a branch for, those among them whose value it
  parses, the value stored under a name (the last row wins), and the parse of a stored
  value, or a default when nothing is stored.
\<close>

definition parsed_names :: "string list" where
  "parsed_names =
     [''config_subscription'', ''site_config'', ''source_config'', ''custom_categories'',
      ''live_config'']"

definition recognized_names :: "string list" where
  "recognized_names = ''config_file'' # parsed_names"

definition decodes :: "json_runtime \<Rightarrow> string \<times> string \<Rightarrow> bool" where
  "decodes J row =
     (case row of (n, v) \<Rightarrow>
        n \<notin> set parsed_names \<or> (case JSON_parse J v of Inl err \<Rightarrow> False | Inr x \<Rightarrow> True))"

definition stored :: "(string \<times> string) list \<Rightarrow> string \<Rightarrow> string option" where
  "stored rows n = map_of (rev rows) n"

definition overlaid :: "json_runtime \<Rightarrow> (string \<times> string) list \<Rightarrow> string \<Rightarrow> json \<Rightarrow> js_error + json" where
  "overlaid J rows n d = (case stored rows n of None \<Rightarrow> Inr d | Some v \<Rightarrow> JSON_parse J v)"

text \<open>An environment with no variable set, and stores with settings rows.\<close>

definition no_env :: env where
  "no_env =
     \<lparr>NEXT_PUBLIC_SITE_NAME = None, ANNOUNCEMENT = None, NEXT_PUBLIC_SEARCH_MAX_PAGE = None,
      NEXT_PUBLIC_DOUBAN_PROXY_TYPE = None, NEXT_PUBLIC_DOUBAN_PROXY = None,
      NEXT_PUBLIC_DOUBAN_IMAGE_PROXY_TYPE = None, NEXT_PUBLIC_DOUBAN_IMAGE_PROXY = None,
      NEXT_PUBLIC_DISABLE_YELLOW_FILTER = None, NEXT_PUBLIC_FLUID_SEARCH = None\<rparr>"

definition settings_db :: database where
  "settings_db =
     sample_db\<lparr>admin_config :=
       [(''site_config'', stringify (JObj [(''SiteName'', JStr ''Mine'')])),
        (''theme'', ''dark''),
        (''config_file'', ''{ not parsed }'')]\<rparr>"

definition legacy_db :: database where
  "legacy_db = sample_db\<lparr>admin_config := [(''source_config'', ''{'')]\<rparr>"

section \<open>Configurations that a write followed by a read gives back\<close>














section \<open>Properties of the retry wrapper\<close>

lemma withRetry_loop_unfold:
  "withRetry_loop operation maxRetries i s n slept =
     (if i < maxRetries then
        (case operation s of
           (Inr v, s') \<Rightarrow> Outcome (Inr v) s' (Suc n) slept
         | (Inl err, s') \<Rightarrow>
             (if isLockError err \<and> \<not> (i = maxRetries - 1)
              then withRetry_loop operation maxRetries (i + 1) s' (Suc n) (slept @ [100 * (i + 1)])
              else Outcome (Inl err) s' (Suc n) slept))
      else Outcome (Inl (JsError None (Some ''Max retries exceeded''))) s n slept)"
  by (rule withRetry_loop.simps)

declare withRetry_loop.simps [simp del]

lemma withRetry_loop_spec:
  "i < maxRetries \<Longrightarrow>
   \<exists>k < nat (maxRetries - i).
     withRetry_loop operation maxRetries i s n slept =
       Outcome (fst (invocation operation s k)) (snd (invocation operation s k)) (n + k + 1)
         (slept @ map (\<lambda>j. 100 * (i + int j + 1)) [0..<k]) \<and>
     (\<forall>j<k. contention (fst (invocation operation s j))) \<and>
     (contention (fst (invocation operation s k)) \<longrightarrow> int k = maxRetries - i - 1)"
proof (induction operation maxRetries i s n slept rule: withRetry_loop.induct)
  case (1 operation maxRetries i s n slept)
  obtain r s' where op: "operation s = (r, s')" by (cases "operation s")
  show ?case
  proof (cases "contention r \<and> i \<noteq> maxRetries - 1")
    case False
    then have stop: "withRetry_loop operation maxRetries i s n slept = Outcome r s' (Suc n) slept"
      using 1(2) op
      by (subst withRetry_loop_unfold) (auto simp: contention_def split: sum.splits)
    have "0 < nat (maxRetries - i)" using 1(2) by simp
    moreover have "contention (fst (invocation operation s 0)) \<longrightarrow> int 0 = maxRetries - i - 1"
      using False op by auto
    ultimately show ?thesis using stop op by (intro exI[of _ 0]) simp
  next
    case True
    then obtain err where r: "r = Inl err" and lock: "isLockError err"
      by (auto simp: contention_def split: sum.splits)
    from True have lt: "i + 1 < maxRetries" using 1(2) by simp
    have step: "withRetry_loop operation maxRetries i s n slept =
        withRetry_loop operation maxRetries (i + 1) s' (Suc n) (slept @ [100 * (i + 1)])"
      using 1(2) op r lock True by (subst withRetry_loop_unfold) simp
    have "\<exists>k < nat (maxRetries - (i + 1)).
        withRetry_loop operation maxRetries (i + 1) s' (Suc n) (slept @ [100 * (i + 1)]) =
         Outcome (fst (invocation operation s' k)) (snd (invocation operation s' k)) (Suc n + k + 1)
           ((slept @ [100 * (i + 1)]) @ map (\<lambda>j. 100 * (i + 1 + int j + 1)) [0..<k]) \<and>
       (\<forall>j<k. contention (fst (invocation operation s' j))) \<and>
       (contention (fst (invocation operation s' k)) \<longrightarrow> int k = maxRetries - (i + 1) - 1)"
    proof (rule "1.IH"[OF 1(2) op[symmetric] r _ lt])
      show "isLockError err \<and> i \<noteq> maxRetries - 1" using lock True by simp
    qed
    then obtain k where k: "k < nat (maxRetries - (i + 1))"
      and eq: "withRetry_loop operation maxRetries (i + 1) s' (Suc n) (slept @ [100 * (i + 1)]) =
         Outcome (fst (invocation operation s' k)) (snd (invocation operation s' k)) (Suc n + k + 1)
           ((slept @ [100 * (i + 1)]) @ map (\<lambda>j. 100 * (i + 1 + int j + 1)) [0..<k])"
      and before: "\<forall>j<k. contention (fst (invocation operation s' j))"
      and last: "contention (fst (invocation operation s' k)) \<longrightarrow> int k = maxRetries - (i + 1) - 1"
      by blast
    have sl: "(slept @ [100 * (i + 1)]) @ map (\<lambda>j. 100 * (i + 1 + int j + 1)) [0..<k]
        = slept @ map (\<lambda>j. 100 * (i + int j + 1)) [0..<Suc k]"
      by (simp add: upt_rec[of 0 "Suc k"] map_Suc_upt[symmetric] algebra_simps del: upt_Suc)
    have "Suc k < nat (maxRetries - i)" using k by simp
    moreover have "withRetry_loop operation maxRetries i s n slept =
       Outcome (fst (invocation operation s (Suc k))) (snd (invocation operation s (Suc k))) (n + Suc k + 1)
         (slept @ map (\<lambda>j. 100 * (i + int j + 1)) [0..<Suc k])"
      using step eq op sl by simp
    moreover have "\<forall>j<Suc k. contention (fst (invocation operation s j))"
    proof (intro allI impI)
      fix j assume "j < Suc k"
      then show "contention (fst (invocation operation s j))"
        using before op True by (cases j) auto
    qed
    moreover have "contention (fst (invocation operation s (Suc k))) \<longrightarrow> int (Suc k) = maxRetries - i - 1"
      using last op by auto
    ultimately show ?thesis by blast
  qed
qed


lemma withRetry_spec:
  "\<exists>k<3.
     withRetry operation 3 s =
       Outcome (fst (invocation operation s k)) (snd (invocation operation s k)) (k + 1)
         (take k [100, 200]) \<and>
     (\<forall>j<k. contention (fst (invocation operation s j))) \<and>
     (contention (fst (invocation operation s k)) \<longrightarrow> k = 2)"
proof -
  obtain k where k: "k < nat (3 - 0)"
    and eq: "withRetry_loop operation 3 0 s 0 [] =
       Outcome (fst (invocation operation s k)) (snd (invocation operation s k)) (0 + k + 1)
         ([] @ map (\<lambda>j. 100 * (0 + int j + 1)) [0..<k])"
    and before: "\<forall>j<k. contention (fst (invocation operation s j))"
    and last: "contention (fst (invocation operation s k)) \<longrightarrow> int k = 3 - 0 - 1"
    using withRetry_loop_spec[of 0 3 operation s 0 "[]"] by auto
  have k3: "k < 3" using k by simp
  then have "k = 0 \<or> k = 1 \<or> k = 2" by auto
  then have "map (\<lambda>j. 100 * (0 + int j + 1)) [0..<k] = take k [100, 200]"
    by (auto simp: upt_rec numeral_2_eq_2)
  with eq have "withRetry operation 3 s =
       Outcome (fst (invocation operation s k)) (snd (invocation operation s k)) (k + 1)
         (take k [100, 200])"
    by (simp add: withRetry_def)
  moreover have "contention (fst (invocation operation s k)) \<longrightarrow> k = 2" using last by auto
  ultimately show ?thesis using k3 before by blast
qed

text \<open>An operation that does not meet contention runs once.\<close>

lemma withRetry_once:
  assumes "\<not> contention (fst (operation s))"
  shows "withRetry operation 3 s = Outcome (fst (operation s)) (snd (operation s)) 1 []"
proof -
  obtain r s' where op: "operation s = (r, s')" by (cases "operation s")
  with assms show ?thesis
    unfolding withRetry_def
    by (subst withRetry_loop_unfold) (auto simp: contention_def split: sum.splits)
qed

text \<open>An operation that only reads gives the same answer however often it is retried.\<close>

lemma invocation_read_only:
  assumes "\<And>s. snd (operation s) = s"
  shows "invocation operation s k = operation s"
  using assms by (induction k arbitrary: s) auto

lemma withRetry_read_only:
  assumes "\<And>s. snd (operation s) = s"
  shows "result (withRetry operation 3 s) = fst (operation s)"
    and "final (withRetry operation 3 s) = s"
proof -
  obtain k where "withRetry operation 3 s =
       Outcome (fst (invocation operation s k)) (snd (invocation operation s k)) (k + 1)
         (take k [100, 200])"
    using withRetry_spec[of operation s] by blast
  then have eq: "withRetry operation 3 s = Outcome (fst (operation s)) (snd (operation s)) (k + 1) (take k [100, 200])"
    by (simp add: invocation_read_only[OF assms])
  show "result (withRetry operation 3 s) = fst (operation s)" using eq by simp
  show "final (withRetry operation 3 s) = s" using eq assms by simp
qed

lemma not_contention_Inr [simp]: "\<not> contention (Inr v)"
  by (simp add: contention_def)

lemma isLockError_constraint [simp]:
  "\<not> isLockError (SQLITE_CONSTRAINT_PRIMARYKEY ''users.username'')"
  "\<not> isLockError SQLITE_CONSTRAINT_FOREIGNKEY"
  by (simp_all add: isLockError_def SQLITE_CONSTRAINT_PRIMARYKEY_def SQLITE_CONSTRAINT_FOREIGNKEY_def)



subsection \<open>Per-user documents\<close>

lemma doc_select_insert:
  "doc_select (doc_delete rows u k
               @ [\<lparr>doc_row.username = u, doc_key = k, data = d\<rparr>]) u' k' =
     (if u' = u \<and> k' = k then Some \<lparr>doc_row.username = u, doc_key = k, data = d\<rparr>
      else doc_select rows u' k')"
  unfolding doc_select_def doc_delete_def by (induction rows) auto

lemma doc_get_insert:
  assumes "doc_insert_or_replace db rows u k d = Inr rows'"
  shows "doc_get J rows' u' k' =
     (if u' = u \<and> k' = k then JSON_parse J d else doc_get J rows u' k')"
  using assms
  by (auto simp: doc_insert_or_replace_def doc_get_def doc_select_insert split: if_splits)

lemma getPlayRecord_result:
  "result (getPlayRecord J db u k) = doc_get J (play_records db) u k"
  "final (getPlayRecord J db u k) = db"
  unfolding getPlayRecord_def by (simp_all add: withRetry_read_only)

lemma getFavorite_result:
  "result (getFavorite J db u k) = doc_get J (favorites db) u k"
  "final (getFavorite J db u k) = db"
  unfolding getFavorite_def by (simp_all add: withRetry_read_only)

lemma getSkipConfig_result:
  "result (getSkipConfig J db u source ident) =
     doc_get J (skip_configs db) u (skipConfigKey source ident)"
  "final (getSkipConfig J db u source ident) = db"
  unfolding getSkipConfig_def by (simp_all add: withRetry_read_only)

lemma setPlayRecord_exists:
  assumes "user_exists db u"
  shows "setPlayRecord J db u k doc =
     Outcome (Inr ())
       (db\<lparr>play_records :=
             doc_delete (play_records db) u k
             @ [\<lparr>doc_row.username = u, doc_key = k, data = JSON_stringify J doc\<rparr>]\<rparr>) 1 []"
  unfolding setPlayRecord_def using assms
  by (subst withRetry_once) (simp_all add: doc_insert_or_replace_def)

lemma setFavorite_exists:
  assumes "user_exists db u"
  shows "setFavorite J db u k doc =
     Outcome (Inr ())
       (db\<lparr>favorites :=
             doc_delete (favorites db) u k
             @ [\<lparr>doc_row.username = u, doc_key = k, data = JSON_stringify J doc\<rparr>]\<rparr>) 1 []"
  unfolding setFavorite_def using assms
  by (subst withRetry_once) (simp_all add: doc_insert_or_replace_def)

lemma setSkipConfig_exists:
  assumes "user_exists db u"
  shows "setSkipConfig J db u source ident doc =
     Outcome (Inr ())
       (db\<lparr>skip_configs :=
             doc_delete (skip_configs db) u (skipConfigKey source ident)
             @ [\<lparr>doc_row.username = u, doc_key = skipConfigKey source ident,
                 data = JSON_stringify J doc\<rparr>]\<rparr>) 1 []"
  unfolding setSkipConfig_def Let_def using assms
  by (subst withRetry_once) (simp_all add: doc_insert_or_replace_def)

text \<open>
  Without a row for the user in \<open>users\<close> the write is refused by the foreign key, once,
  and the store is as before.
\<close>

lemma setPlayRecord_unknown_user:
  assumes "\<not> user_exists db u"
  shows "setPlayRecord J db u k doc = Outcome (Inl SQLITE_CONSTRAINT_FOREIGNKEY) db 1 []"
  unfolding setPlayRecord_def using assms
  by (subst withRetry_once) (simp_all add: doc_insert_or_replace_def contention_def)

text \<open>
  Claim C1. For a user with a row in \<open>users\<close> and a document that the runtime's JSON
  round trip reproduces, \<open>setPlayRecord\<close> followed by \<open>getPlayRecord\<close> under the same
  user and key returns the document, and so do \<open>setFavorite\<close> and \<open>getFavorite\<close>.
\<close>

theorem C1_set_then_get:
  assumes "user_exists db U" and "JSON_parse J (JSON_stringify J doc) = Inr doc"
  shows "result (setPlayRecord J db U K doc) = Inr () \<and>
         result (getPlayRecord J (final (setPlayRecord J db U K doc)) U K) = Inr doc \<and>
         result (setFavorite J db U K doc) = Inr () \<and>
         result (getFavorite J (final (setFavorite J db U K doc)) U K) = Inr doc"
  using assms
  by (simp add: setPlayRecord_exists setFavorite_exists getPlayRecord_result getFavorite_result
      doc_get_def doc_select_insert)

theorem C1_set_then_get_witness:
  "user_exists sample_db ''alice'' \<and>
   JSON_parse reference_runtime (JSON_stringify reference_runtime sample_doc) = Inr sample_doc \<and>
   result (getPlayRecord reference_runtime
             (final (setPlayRecord reference_runtime sample_db ''alice'' ''src+1'' sample_doc))
             ''alice'' ''src+1'') = Inr sample_doc \<and>
   result (getFavorite reference_runtime
             (final (setFavorite reference_runtime sample_db ''alice'' ''src+1'' sample_doc))
             ''alice'' ''src+1'') = Inr sample_doc"
proof -
  have u: "user_exists sample_db ''alice''" by code_simp
  have rt: "JSON_parse reference_runtime (JSON_stringify reference_runtime sample_doc) = Inr sample_doc"
    by code_simp
  show ?thesis using C1_set_then_get[OF u rt, of "''src+1''"] u rt by simp
qed

lemma skipConfigKey_src1_ep1:
  "skipConfigKey source ident = skipConfigKey ''src1'' ''ep1'' \<longleftrightarrow> source = ''src1'' \<and> ident = ''ep1''"
  unfolding skipConfigKey_def
  by (auto simp: append_eq_Cons_conv Cons_eq_append_conv)

text \<open>
  Claim C8. After \<open>setSkipConfig(U, s1, i1, cfg)\<close>, \<open>getSkipConfig(U, s2, i2)\<close> returns
  \<open>cfg\<close> when the two pairs compose to the same key \<open>source + "+" + id\<close>, and what it
  returned before the write when they do not. The only pair that composes to the key of
  \<open>("src1", "ep1")\<close> is that pair itself.
\<close>

theorem C8_skip_config_key:
  assumes "user_exists db U" and "JSON_parse J (JSON_stringify J cfg) = Inr cfg"
  shows "result (getSkipConfig J (final (setSkipConfig J db U s1 i1 cfg)) U s2 i2) =
           (if skipConfigKey s1 i1 = skipConfigKey s2 i2 then Inr cfg
            else result (getSkipConfig J db U s2 i2)) \<and>
         (skipConfigKey s2 i2 = skipConfigKey ''src1'' ''ep1'' \<longleftrightarrow> s2 = ''src1'' \<and> i2 = ''ep1'')"
  using assms
  by (simp add: setSkipConfig_exists getSkipConfig_result doc_get_def doc_select_insert
      skipConfigKey_src1_ep1)

theorem C8_skip_config_key_witness:
  "user_exists sample_db ''alice'' \<and>
   JSON_parse reference_runtime (JSON_stringify reference_runtime sample_doc) = Inr sample_doc \<and>
   result (getSkipConfig reference_runtime
             (final (setSkipConfig reference_runtime sample_db ''alice'' ''src1'' ''ep1'' sample_doc))
             ''alice'' ''src1'' ''ep1'') = Inr sample_doc \<and>
   result (getSkipConfig reference_runtime
             (final (setSkipConfig reference_runtime sample_db ''alice'' ''src1'' ''ep1'' sample_doc))
             ''alice'' ''src1'' ''ep2'') = Inr JNull \<and>
   result (getSkipConfig reference_runtime
             (final (setSkipConfig reference_runtime sample_db ''alice'' ''a+b'' ''c'' sample_doc))
             ''alice'' ''a'' ''b+c'') = Inr sample_doc"
proof -
  have u: "user_exists sample_db ''alice''" by code_simp
  have rt: "JSON_parse reference_runtime (JSON_stringify reference_runtime sample_doc) = Inr sample_doc"
    by code_simp
  have none: "result (getSkipConfig reference_runtime sample_db ''alice'' ''src1'' ''ep2'') = Inr JNull"
    by code_simp
  have k1: "skipConfigKey ''src1'' ''ep1'' \<noteq> skipConfigKey ''src1'' ''ep2''" by code_simp
  have k2: "skipConfigKey ''a+b'' ''c'' = skipConfigKey ''a'' ''b+c''" by code_simp
  show ?thesis
    using C8_skip_config_key[OF u rt, of "''src1''" "''ep1''" "''src1''" "''ep1''"]
      C8_skip_config_key[OF u rt, of "''src1''" "''ep1''" "''src1''" "''ep2''"]
      C8_skip_config_key[OF u rt, of "''a+b''" "''c''" "''a''" "''b+c''"]
      u rt none k1 k2 by simp
qed

subsection \<open>Search history is capped when read\<close>

lemma length_most_recent: "length (most_recent rows u limit) \<le> limit"
  by (simp add: most_recent_def)

lemma getSearchHistory_result:
  "result (getSearchHistory db u) =
     Inr (map keyword (most_recent (search_history db) u SEARCH_HISTORY_LIMIT))"
  "final (getSearchHistory db u) = db"
  unfolding getSearchHistory_def by (simp_all add: withRetry_read_only)

text \<open>
  Claim C9. In every state of the store, also one in which a user holds more than 20
  rows of search history because a trim never ran, \<open>getSearchHistory\<close> returns at most
  20 keywords: the limit is applied again when reading.
\<close>

theorem C9_history_read_capped:
  "\<exists>ks. result (getSearchHistory db U) = Inr ks \<and> length ks \<le> 20 \<and>
        final (getSearchHistory db U) = db"
  using length_most_recent[of "search_history db" U SEARCH_HISTORY_LIMIT]
  by (simp add: getSearchHistory_result SEARCH_HISTORY_LIMIT_def)

theorem C9_history_read_capped_witness:
  "length (filter (\<lambda>row. search_history_row.username row = ''alice'') (search_history untrimmed_db)) = 25 \<and>
   (\<exists>ks. result (getSearchHistory untrimmed_db ''alice'') = Inr ks \<and> length ks \<le> 20 \<and>
         final (getSearchHistory untrimmed_db ''alice'') = untrimmed_db)"
proof -
  have "length (filter (\<lambda>row. search_history_row.username row = ''alice'') (search_history untrimmed_db)) = 25"
    by code_simp
  then show ?thesis using C9_history_read_capped[of untrimmed_db "''alice''"] by simp
qed


subsection \<open>Users\<close>

lemma constraint_violation_primary_key [simp]:
  "constraint_violation (SQLITE_CONSTRAINT_PRIMARYKEY column)"
  by (simp add: constraint_violation_def SQLITE_CONSTRAINT_PRIMARYKEY_def)

lemma registerUser_fresh:
  assumes "\<not> user_exists db u"
  shows "registerUser db u pw =
     Outcome (Inr ())
       (db\<lparr>users := users db @
            [\<lparr>users_row.username = u, password = pw, role = ''user'', banned = 0,
              tags = None, enabled_apis = None\<rparr>]\<rparr>) 1 []"
  unfolding registerUser_def using assms by (subst withRetry_once) simp_all

lemma registerUser_existing:
  assumes "user_exists db u"
  shows "registerUser db u pw =
     Outcome (Inl (SQLITE_CONSTRAINT_PRIMARYKEY ''users.username'')) db 1 []"
  unfolding registerUser_def using assms
  by (subst withRetry_once) (simp_all add: contention_def)

lemma verifyUser_result:
  "result (verifyUser db u pw) =
     (case find (\<lambda>row. users_row.username row = u) (users db) of
        None \<Rightarrow> Inr False
      | Some row \<Rightarrow> Inr (users_row.password row = pw))"
  unfolding verifyUser_def
  by (subst withRetry_read_only) (auto split: option.splits)

text \<open>
  Claim C5. \<open>registerUser\<close> for a username that is already present fails with the
  primary-key constraint error of the engine, which is not a contention error; the
  operation is invoked once, without a sleep, and the store, with the stored password,
  is as before.
\<close>

theorem C5_register_twice:
  assumes "user_exists db U"
  shows "result (registerUser db U p2) = Inl (SQLITE_CONSTRAINT_PRIMARYKEY ''users.username'') \<and>
         constraint_violation (SQLITE_CONSTRAINT_PRIMARYKEY ''users.username'') \<and>
         \<not> isLockError (SQLITE_CONSTRAINT_PRIMARYKEY ''users.username'') \<and>
         calls (registerUser db U p2) = 1 \<and>
         sleeps (registerUser db U p2) = [] \<and>
         final (registerUser db U p2) = db \<and>
         result (verifyUser (final (registerUser db U p2)) U pw) = result (verifyUser db U pw)"
  using assms by (simp add: registerUser_existing)

theorem C5_register_twice_witness:
  "user_exists sample_db ''alice'' \<and>
   result (registerUser (initializeTables ''admin'' ''admin-pw'') ''alice'' ''pw1'') = Inr () \<and>
   result (registerUser sample_db ''alice'' ''other'') =
     Inl (SQLITE_CONSTRAINT_PRIMARYKEY ''users.username'') \<and>
   calls (registerUser sample_db ''alice'' ''other'') = 1 \<and>
   result (verifyUser (final (registerUser sample_db ''alice'' ''other'')) ''alice'' ''pw1'') = Inr True \<and>
   result (verifyUser (final (registerUser sample_db ''alice'' ''other'')) ''alice'' ''other'') = Inr False"
proof -
  have u: "user_exists sample_db ''alice''" by code_simp
  have first: "result (registerUser (initializeTables ''admin'' ''admin-pw'') ''alice'' ''pw1'') = Inr ()"
    by code_simp
  have v1: "result (verifyUser sample_db ''alice'' ''pw1'') = Inr True" by code_simp
  have v2: "result (verifyUser sample_db ''alice'' ''other'') = Inr False" by code_simp
  show ?thesis
    using C5_register_twice[OF u, of "''other''" "''pw1''"] C5_register_twice[OF u, of "''other''" "''other''"]
      u first v1 v2 by simp
qed

subsection \<open>Deleting a user\<close>

lemma doc_collect_Nil: "doc_get_all J [] u = Inr []"
  by (simp add: doc_get_all_def)

lemma doc_get_all_none:
  assumes "filter (\<lambda>row. doc_row.username row = u) rows = []"
  shows "doc_get_all J rows u = Inr []"
  using assms by (simp add: doc_get_all_def)

lemma getAllPlayRecords_result:
  "result (getAllPlayRecords J db u) = doc_get_all J (play_records db) u"
  unfolding getAllPlayRecords_def by (simp add: withRetry_read_only)

lemma getAllFavorites_result:
  "result (getAllFavorites J db u) = doc_get_all J (favorites db) u"
  unfolding getAllFavorites_def by (simp add: withRetry_read_only)

lemma getAllSkipConfigs_result:
  "result (getAllSkipConfigs J db u) = doc_get_all J (skip_configs db) u"
  unfolding getAllSkipConfigs_def by (simp add: withRetry_read_only)

lemma filter_other_user_id:
  assumes "list_all (\<lambda>row. f row \<in> S) rows" and "u \<notin> S"
  shows "filter (\<lambda>row. f row \<noteq> u) rows = rows"
  using assms by (induction rows) auto

lemma filter_user_of_others [simp]:
  "filter (\<lambda>row. f row = u) (filter (\<lambda>row. f row \<noteq> u) rows) = []"
  by (induction rows) auto

lemma deleteUser_existing:
  assumes "user_exists db u"
  shows "deleteUser db u =
     Outcome (Inr ())
       (db\<lparr>users := filter (\<lambda>row. users_row.username row \<noteq> u) (users db),
           play_records := filter (\<lambda>row. doc_row.username row \<noteq> u) (play_records db),
           favorites := filter (\<lambda>row. doc_row.username row \<noteq> u) (favorites db),
           search_history :=
             filter (\<lambda>row. search_history_row.username row \<noteq> u) (search_history db),
           skip_configs := filter (\<lambda>row. doc_row.username row \<noteq> u) (skip_configs db)\<rparr>) 1 []"
  unfolding deleteUser_def using assms by (subst withRetry_once) simp_all

lemma deleteUser_unknown:
  assumes "\<not> user_exists db u"
  shows "deleteUser db u = Outcome (Inr ()) db 1 []"
  unfolding deleteUser_def using assms by (subst withRetry_once) simp_all

text \<open>In a well-formed store every deletion has the effect of the cascade.\<close>

lemma deleteUser_final:
  assumes "foreign_keys_ok db"
  shows "final (deleteUser db u) =
     db\<lparr>users := filter (\<lambda>row. users_row.username row \<noteq> u) (users db),
        play_records := filter (\<lambda>row. doc_row.username row \<noteq> u) (play_records db),
        favorites := filter (\<lambda>row. doc_row.username row \<noteq> u) (favorites db),
        search_history :=
          filter (\<lambda>row. search_history_row.username row \<noteq> u) (search_history db),
        skip_configs := filter (\<lambda>row. doc_row.username row \<noteq> u) (skip_configs db)\<rparr>"
proof (cases "user_exists db u")
  case True
  then show ?thesis by (simp add: deleteUser_existing)
next
  case False
  let ?S = "set (map users_row.username (users db))"
  have out: "u \<notin> ?S" using False by (simp add: user_exists_def)
  have "filter (\<lambda>row. users_row.username row \<noteq> u) (users db) = users db"
    using out by (intro filter_other_user_id[where S = ?S]) (simp_all add: list_all_iff)
  moreover have "filter (\<lambda>row. doc_row.username row \<noteq> u) (play_records db) = play_records db"
    using assms out by (intro filter_other_user_id[where S = ?S]) (simp_all add: foreign_keys_ok_def user_exists_def)
  moreover have "filter (\<lambda>row. doc_row.username row \<noteq> u) (favorites db) = favorites db"
    using assms out by (intro filter_other_user_id[where S = ?S]) (simp_all add: foreign_keys_ok_def user_exists_def)
  moreover have "filter (\<lambda>row. search_history_row.username row \<noteq> u) (search_history db) = search_history db"
    using assms out by (intro filter_other_user_id[where S = ?S]) (simp_all add: foreign_keys_ok_def user_exists_def)
  moreover have "filter (\<lambda>row. doc_row.username row \<noteq> u) (skip_configs db) = skip_configs db"
    using assms out by (intro filter_other_user_id[where S = ?S]) (simp_all add: foreign_keys_ok_def user_exists_def)
  ultimately show ?thesis using False by (simp add: deleteUser_unknown)
qed

lemma deleteUser_result: "result (deleteUser db u) = Inr ()"
  by (cases "user_exists db u") (simp_all add: deleteUser_existing deleteUser_unknown)

lemma most_recent_none:
  assumes "filter (\<lambda>row. search_history_row.username row = u) rows = []"
  shows "most_recent rows u limit = []"
  using assms by (simp add: most_recent_def)

lemma not_exists_after_delete:
  assumes "users db' = filter (\<lambda>row. users_row.username row \<noteq> u) rows"
  shows "\<not> user_exists db' u"
  using assms by (auto simp: user_exists_def)

text \<open>
  Claim C4. In a store that respects the foreign keys, \<open>deleteUser(U)\<close> leaves no row of
  \<open>U\<close> in \<open>users\<close>, \<open>play_records\<close>, \<open>favorites\<close>, \<open>search_history\<close> and \<open>skip_configs\<close>, so
  the four readers return nothing for \<open>U\<close>; the rows of every other user, in their
  order, and all other tables are as before.
\<close>

theorem C4_deleteUser_cascade:
  assumes "foreign_keys_ok db"
  shows "result (deleteUser db U) = Inr () \<and>
         \<not> user_exists (final (deleteUser db U)) U \<and>
         result (getAllPlayRecords J (final (deleteUser db U)) U) = Inr [] \<and>
         result (getAllFavorites J (final (deleteUser db U)) U) = Inr [] \<and>
         result (getSearchHistory (final (deleteUser db U)) U) = Inr [] \<and>
         result (getAllSkipConfigs J (final (deleteUser db U)) U) = Inr [] \<and>
         final (deleteUser db U) =
           db\<lparr>users := filter (\<lambda>row. users_row.username row \<noteq> U) (users db),
              play_records := filter (\<lambda>row. doc_row.username row \<noteq> U) (play_records db),
              favorites := filter (\<lambda>row. doc_row.username row \<noteq> U) (favorites db),
              search_history :=
                filter (\<lambda>row. search_history_row.username row \<noteq> U) (search_history db),
              skip_configs := filter (\<lambda>row. doc_row.username row \<noteq> U) (skip_configs db)\<rparr>"
proof -
  have gone: "\<not> user_exists (final (deleteUser db U)) U"
    by (rule not_exists_after_delete[where rows = "users db"]) (simp add: deleteUser_final[OF assms])
  show ?thesis
    using gone
    by (simp add: deleteUser_final[OF assms] deleteUser_result getAllPlayRecords_result
        getAllFavorites_result getAllSkipConfigs_result getSearchHistory_result
        doc_get_all_none most_recent_none)
qed

theorem C4_deleteUser_cascade_witness:
  "foreign_keys_ok two_users_db \<and>
   result (getAllPlayRecords reference_runtime two_users_db ''alice'') = Inr [(''src+1'', sample_doc)] \<and>
   result (getSearchHistory two_users_db ''alice'') = Inr [''matrix''] \<and>
   result (getAllPlayRecords reference_runtime (final (deleteUser two_users_db ''alice'')) ''alice'') = Inr [] \<and>
   result (getAllFavorites reference_runtime (final (deleteUser two_users_db ''alice'')) ''alice'') = Inr [] \<and>
   result (getSearchHistory (final (deleteUser two_users_db ''alice'')) ''alice'') = Inr [] \<and>
   result (getAllSkipConfigs reference_runtime (final (deleteUser two_users_db ''alice'')) ''alice'') = Inr [] \<and>
   result (getAllPlayRecords reference_runtime (final (deleteUser two_users_db ''alice'')) ''bob'') =
     result (getAllPlayRecords reference_runtime two_users_db ''bob'') \<and>
   result (getAllSkipConfigs reference_runtime (final (deleteUser two_users_db ''alice'')) ''bob'') =
     Inr [(''src1+ep1'', JNull)]"
proof -
  have fk: "foreign_keys_ok two_users_db" by code_simp
  have before: "result (getAllPlayRecords reference_runtime two_users_db ''alice'') = Inr [(''src+1'', sample_doc)]"
    "result (getSearchHistory two_users_db ''alice'') = Inr [''matrix'']"
    by code_simp+
  have bob: "result (getAllPlayRecords reference_runtime (final (deleteUser two_users_db ''alice'')) ''bob'') =
     result (getAllPlayRecords reference_runtime two_users_db ''bob'')"
    "result (getAllSkipConfigs reference_runtime (final (deleteUser two_users_db ''alice'')) ''bob'') =
     Inr [(''src1+ep1'', JNull)]"
    by code_simp+
  show ?thesis
    using C4_deleteUser_cascade[OF fk, of "''alice''" reference_runtime] fk before bob by blast
qed

subsection \<open>What a retried operation leaves alone\<close>

lemma invocation_preserves:
  assumes "\<And>s. f (snd (operation s)) = f s"
  shows "f (snd (invocation operation s k)) = f s"
  using assms by (induction k arbitrary: s) auto

lemma withRetry_preserves:
  assumes "\<And>s. f (snd (operation s)) = f s"
  shows "f (final (withRetry operation 3 s)) = f s"
proof -
  obtain k where "withRetry operation 3 s =
       Outcome (fst (invocation operation s k)) (snd (invocation operation s k)) (k + 1)
         (take k [100, 200])"
    using withRetry_spec[of operation s] by blast
  then show ?thesis by (simp add: invocation_preserves[of f operation, OF assms])
qed

subsection \<open>Replacing all users\<close>

lemma update_user_credentials:
  "map (\<lambda>row. (users_row.username row, users_row.password row)) (update_user J user rows) =
   map (\<lambda>row. (users_row.username row, users_row.password row)) rows"
  by (induction rows) (auto simp: update_user_def)

lemma fold_update_user_credentials:
  "map (\<lambda>row. (users_row.username row, users_row.password row)) (fold (update_user J) us rows) =
   map (\<lambda>row. (users_row.username row, users_row.password row)) rows"
  by (induction us arbitrary: rows) (simp_all add: update_user_credentials)

lemma update_user_unnamed:
  assumes "User.username user \<in> set names"
  shows "filter (\<lambda>row. Some (users_row.username row) \<notin> set names) (update_user J user rows) =
         filter (\<lambda>row. Some (users_row.username row) \<notin> set names) rows"
  using assms by (induction rows) (auto simp: update_user_def)

lemma fold_update_user_unnamed:
  assumes "set (map User.username us) \<subseteq> set names"
  shows "filter (\<lambda>row. Some (users_row.username row) \<notin> set names) (fold (update_user J) us rows) =
         filter (\<lambda>row. Some (users_row.username row) \<notin> set names) rows"
  using assms by (induction us arbitrary: rows) (simp_all add: update_user_unnamed)

lemma update_user_no_match:
  assumes "\<not> (\<exists>row \<in> set rows. Some (users_row.username row) = User.username user)"
  shows "update_user J user rows = rows"
  using assms by (induction rows) (auto simp: update_user_def)

lemma setAllUsers_outcome:
  "setAllUsers J db us = Outcome (Inr ()) (db\<lparr>users := fold (update_user J) us (users db)\<rparr>) 1 []"
  unfolding setAllUsers_def by (subst withRetry_once) simp_all

lemma setAllUserGroups_users [simp]: "users (final (setAllUserGroups J db groups)) = users db"
  unfolding setAllUserGroups_def
  by (rule withRetry_preserves) (simp split: prod.splits)

lemma setAllApiSources_users [simp]: "users (final (setAllApiSources db sources)) = users db"
  unfolding setAllApiSources_def
  by (rule withRetry_preserves) (simp split: prod.splits)

lemma setAllLiveSources_users [simp]: "users (final (setAllLiveSources db sources)) = users db"
  unfolding setAllLiveSources_def
  by (rule withRetry_preserves) (simp split: prod.splits)

lemma setAllCategories_users [simp]: "users (final (setAllCategories db cats)) = users db"
  unfolding setAllCategories_def
  by (rule withRetry_preserves) (simp split: prod.splits)

lemma admin_config_insert_or_replace_users [simp]:
  "users (admin_config_insert_or_replace db n v) = users db"
  by (simp add: admin_config_insert_or_replace_def)

lemma await_users:
  assumes "users (final call) = X"
    and "\<And>v db'. users db' = X \<Longrightarrow> users (snd (continue v db')) = X"
  shows "users (snd (await call continue)) = X"
  using assms by (simp add: await_def split: sum.splits)

lemma withRetry_async_final:
  "final (withRetry_async operation 3 s) = snd (operation s)"
  by (simp add: withRetry_async_def split: prod.splits)

lemma setAdminConfig_users:
  "users (final (setAdminConfig J db config)) =
     fold (update_user J) (Users (UserConfig config)) (users db)"
  unfolding setAdminConfig_def withRetry_async_final Let_def
proof (intro await_users, goal_cases)
  case 1
  show ?case by (simp add: setAllUsers_outcome)
next
  case (2 v db')
  then show ?case by (cases "Tags (UserConfig config)") simp_all
next
  case (3 v db' va db'a)
  then show ?case by simp
next
  case (4 v db' va db'a vb db'b)
  then show ?case by simp
next
  case (5 v db' va db'a vb db'b vc db'c)
  then show ?case by (cases "LiveConfig config") simp_all
next
  case (6 v db' va db'a vb db'b vc db'c vd db'd)
  then show ?case by simp
qed

text \<open>
  Claim C10. \<open>setAllUsers\<close> never fails and changes only the \<open>users\<close> table; there it
  keeps every row's username and password, in order, and leaves a row that no input
  entry names as it was. An input entry that names no row has no effect. The users
  that \<open>setAdminConfig\<close> leaves behind have the same usernames and passwords as before.
\<close>

theorem C10_setAllUsers_frame:
  "result (setAllUsers J db us) = Inr () \<and>
   final (setAllUsers J db us) = db\<lparr>users := users (final (setAllUsers J db us))\<rparr> \<and>
   map (\<lambda>row. (users_row.username row, users_row.password row)) (users (final (setAllUsers J db us))) =
     map (\<lambda>row. (users_row.username row, users_row.password row)) (users db) \<and>
   filter (\<lambda>row. Some (users_row.username row) \<notin> set (map User.username us))
       (users (final (setAllUsers J db us))) =
     filter (\<lambda>row. Some (users_row.username row) \<notin> set (map User.username us)) (users db) \<and>
   map (\<lambda>row. (users_row.username row, users_row.password row))
       (users (final (setAdminConfig J db config))) =
     map (\<lambda>row. (users_row.username row, users_row.password row)) (users db)"
  using fold_update_user_unnamed[of us "map User.username us" J "users db"]
  by (simp add: setAllUsers_outcome setAdminConfig_users fold_update_user_credentials)

theorem C10_setAllUsers_frame_witness:
  "result (setAllUsers reference_runtime sample_db sample_users) = Inr () \<and>
   map (\<lambda>row. (users_row.username row, users_row.password row))
       (users (final (setAllUsers reference_runtime sample_db sample_users))) =
     [(''admin'', ''admin-pw''), (''alice'', ''pw1'')] \<and>
   map users_row.role (users (final (setAllUsers reference_runtime sample_db sample_users))) =
     [''owner'', ''admin'']"
proof -
  have before: "map (\<lambda>row. (users_row.username row, users_row.password row)) (users sample_db) =
      [(''admin'', ''admin-pw''), (''alice'', ''pw1'')]"
    by code_simp
  have roles: "map users_row.role (users (final (setAllUsers reference_runtime sample_db sample_users))) =
     [''owner'', ''admin'']"
    by code_simp
  show ?thesis
    using C10_setAllUsers_frame[of reference_runtime sample_db sample_users] before roles by simp
qed

subsection \<open>Stores that respect the foreign keys\<close>

text \<open>
  The hypothesis of the cascade holds in the store that \<open>initializeTables\<close> creates and
  is kept by the operations on users and on the per-user tables.
\<close>

lemma invocation_invariant:
  assumes "\<And>s. P s \<Longrightarrow> P (snd (operation s))" and "P s"
  shows "P (snd (invocation operation s k))"
  using assms by (induction k arbitrary: s) auto

lemma withRetry_invariant:
  assumes "\<And>s. P s \<Longrightarrow> P (snd (operation s))" and "P s"
  shows "P (final (withRetry operation 3 s))"
proof -
  obtain k where "withRetry operation 3 s =
       Outcome (fst (invocation operation s k)) (snd (invocation operation s k)) (k + 1)
         (take k [100, 200])"
    using withRetry_spec[of operation s] by blast
  then show ?thesis using invocation_invariant[of P operation s k, OF assms] by simp
qed

lemma foreign_keys_ok_initial: "foreign_keys_ok (initializeTables admin pw)"
  by (simp add: foreign_keys_ok_def initializeTables_def)

lemma foreign_keys_ok_registerUser:
  assumes "foreign_keys_ok db"
  shows "foreign_keys_ok (final (registerUser db u pw))"
  unfolding registerUser_def
  apply (rule withRetry_invariant[where P = foreign_keys_ok])
   apply (auto simp: foreign_keys_ok_def user_exists_def list_all_iff)[1]
  apply (rule assms)
  done

lemma foreign_keys_ok_changePassword:
  assumes "foreign_keys_ok db"
  shows "foreign_keys_ok (final (changePassword db u pw))"
  unfolding changePassword_def
  apply (rule withRetry_invariant[where P = foreign_keys_ok])
   apply (auto simp: foreign_keys_ok_def user_exists_def list_all_iff image_iff intro: rev_bexI)[1]
  apply (rule assms)
  done

lemma foreign_keys_ok_deleteUser:
  assumes "foreign_keys_ok db"
  shows "foreign_keys_ok (final (deleteUser db u))"
  unfolding deleteUser_def
  apply (rule withRetry_invariant[where P = foreign_keys_ok])
   apply (auto simp: foreign_keys_ok_def user_exists_def list_all_iff)[1]
  apply (rule assms)
  done

lemma foreign_keys_ok_setPlayRecord:
  assumes "foreign_keys_ok db"
  shows "foreign_keys_ok (final (setPlayRecord J db u k doc))"
  unfolding setPlayRecord_def
  apply (rule withRetry_invariant[where P = foreign_keys_ok])
   apply (auto simp: foreign_keys_ok_def user_exists_def list_all_iff doc_insert_or_replace_def
        doc_delete_def split: sum.splits if_splits)[1]
  apply (rule assms)
  done

lemma foreign_keys_ok_setFavorite:
  assumes "foreign_keys_ok db"
  shows "foreign_keys_ok (final (setFavorite J db u k doc))"
  unfolding setFavorite_def
  apply (rule withRetry_invariant[where P = foreign_keys_ok])
   apply (auto simp: foreign_keys_ok_def user_exists_def list_all_iff doc_insert_or_replace_def
        doc_delete_def split: sum.splits if_splits)[1]
  apply (rule assms)
  done

lemma foreign_keys_ok_setSkipConfig:
  assumes "foreign_keys_ok db"
  shows "foreign_keys_ok (final (setSkipConfig J db u source ident doc))"
  unfolding setSkipConfig_def Let_def
  apply (rule withRetry_invariant[where P = foreign_keys_ok])
   apply (auto simp: foreign_keys_ok_def user_exists_def list_all_iff doc_insert_or_replace_def
        doc_delete_def split: sum.splits if_splits)[1]
  apply (rule assms)
  done

lemma foreign_keys_ok_addSearchHistory:
  assumes "foreign_keys_ok db"
  shows "foreign_keys_ok (final (addSearchHistory db now u kw))"
  unfolding addSearchHistory_def Let_def
  apply (rule withRetry_invariant[where P = foreign_keys_ok])
   apply (auto simp: foreign_keys_ok_def user_exists_def list_all_iff search_history_insert_def
        search_history_delete_def search_history_trim_def split: sum.splits if_splits)[1]
  apply (rule assms)
  done

lemma foreign_keys_ok_setAllUsers:
  assumes "foreign_keys_ok db"
  shows "foreign_keys_ok (final (setAllUsers J db us))"
proof -
  have "map users_row.username (fold (update_user J) us (users db)) = map users_row.username (users db)"
    using fold_update_user_credentials[of J us "users db"]
    by (metis (no_types, lifting) list.map_comp map_eq_conv fst_conv comp_apply)
  then show ?thesis using assms
    by (simp add: setAllUsers_outcome foreign_keys_ok_def user_exists_def)
qed

subsection \<open>Adding to the search history\<close>

lemma insort_key_greatest:
  assumes "\<forall>y \<in> set ys. f y < f x"
  shows "insort_key f x ys = ys @ [x]"
  using assms by (induction ys) auto

lemma sort_key_decreasing:
  fixes f :: "'a \<Rightarrow> int"
  assumes "sorted_wrt (<) (map f xs)"
  shows "sort_key (\<lambda>x. - f x) xs = rev xs"
  using assms
proof (induction xs)
  case Nil
  then show ?case by simp
next
  case (Cons x xs)
  then have "\<forall>y \<in> set (rev xs). - f y < - f x" by auto
  then have "insort_key (\<lambda>x. - f x) x (rev xs) = rev xs @ [x]"
    by (rule insort_key_greatest)
  with Cons show ?case by simp
qed

lemma take_rev_last_n: "take n (rev xs) = rev (last_n n xs)"
  by (simp add: last_n_def take_rev)

lemma filter_ids_of_suffix:
  assumes "distinct (map f xs)"
  shows "filter (\<lambda>x. f x \<in> set (map f (drop k xs))) xs = drop k xs"
proof -
  have d: "distinct (map f (take k xs) @ map f (drop k xs))"
    using assms by (metis append_take_drop_id map_append)
  let ?P = "\<lambda>x. f x \<in> set (map f (drop k xs))"
  have a: "filter ?P (take k xs) = []"
    using d by (auto simp: filter_empty_conv)
  have b: "filter ?P (drop k xs) = drop k xs"
    by (auto simp: filter_id_conv)
  have "filter ?P xs = filter ?P (take k xs) @ filter ?P (drop k xs)"
    by (metis append_take_drop_id filter_append)
  then show ?thesis by (simp only: a b append_Nil)
qed

lemma most_recent_ok:
  assumes "sorted_wrt (<) (map created_at (user_history db u))"
  shows "most_recent (search_history db) u n = rev (last_n n (user_history db u))"
  using assms
  by (simp add: most_recent_def user_history_def[symmetric] sort_key_decreasing take_rev_last_n)

lemma user_history_delete:
  "user_history (search_history_delete db u kw) u = filter (\<lambda>row. keyword row \<noteq> kw) (user_history db u)"
  by (auto simp: user_history_def search_history_delete_def intro: filter_cong)

lemma user_history_insert:
  assumes "search_history_insert db now u kw = Inr db'"
  shows "user_history db' u =
           user_history db u @
             [\<lparr>search_history_row.id' = search_history_seq db + 1, username = u, keyword = kw,
               created_at = now\<rparr>]"
  using assms by (auto simp: user_history_def search_history_insert_def split: if_splits)

lemma user_history_trim:
  assumes "sorted_wrt (<) (map created_at (user_history db u))"
    and "distinct (map search_history_row.id' (search_history db))"
  shows "user_history (search_history_trim db u n) u = last_n n (user_history db u)"
proof -
  let ?K = "set (map search_history_row.id' (most_recent (search_history db) u n))"
  have K: "?K = set (map search_history_row.id' (drop (length (user_history db u) - n) (user_history db u)))"
    by (simp add: most_recent_ok[OF assms(1)] last_n_def)
  have "user_history (search_history_trim db u n) u =
      filter (\<lambda>row. search_history_row.id' row \<in> ?K) (user_history db u)"
    by (auto simp: user_history_def search_history_trim_def intro: filter_cong)
  also have "\<dots> = drop (length (user_history db u) - n) (user_history db u)"
    unfolding K
    by (rule filter_ids_of_suffix) (use assms(2) in \<open>simp add: user_history_def distinct_map_filter\<close>)
  finally show ?thesis by (simp add: last_n_def)
qed

lemma addSearchHistory_exists:
  assumes "user_exists db u"
  shows "addSearchHistory db now u kw =
     Outcome (Inr ())
       (search_history_trim
          (search_history_delete db u kw
             \<lparr>search_history := search_history (search_history_delete db u kw) @
                 [\<lparr>search_history_row.id' = search_history_seq db + 1, username = u, keyword = kw,
                   created_at = now\<rparr>],
              search_history_seq := search_history_seq db + 1\<rparr>)
          u SEARCH_HISTORY_LIMIT) 1 []"
  unfolding addSearchHistory_def using assms
  by (subst withRetry_once)
     (simp_all add: search_history_insert_def search_history_delete_def user_exists_def Let_def)

text \<open>
  One call, when the clock has moved on since the last insert of the user: the keyword
  goes to the end of the user's rows, an older row of the same keyword goes away, and the
  20 newest rows stay.
\<close>

lemma addSearchHistory_later:
  assumes ex: "user_exists db u"
    and ok: "history_ok db u"
    and later: "\<forall>row \<in> set (user_history db u). created_at row < now"
  shows "map keyword (user_history (final (addSearchHistory db now u kw)) u) =
           last_n 20 (filter (\<lambda>k. k \<noteq> kw) (map keyword (user_history db u)) @ [kw])"
    and "history_ok (final (addSearchHistory db now u kw)) u"
    and "\<forall>row \<in> set (user_history (final (addSearchHistory db now u kw)) u). created_at row \<le> now"
    and "user_exists (final (addSearchHistory db now u kw)) u"
proof -
  let ?new = "\<lparr>search_history_row.id' = search_history_seq db + 1, username = u, keyword = kw,
                created_at = now\<rparr>"
  let ?db1 = "search_history_delete db u kw"
  let ?db2 = "?db1\<lparr>search_history := search_history ?db1 @ [?new],
                    search_history_seq := search_history_seq db + 1\<rparr>"
  let ?db3 = "search_history_trim ?db2 u SEARCH_HISTORY_LIMIT"
  have fin: "final (addSearchHistory db now u kw) = ?db3"
    by (simp add: addSearchHistory_exists[OF ex])
  have ins: "search_history_insert ?db1 now u kw = Inr ?db2"
    using ex by (simp add: search_history_insert_def search_history_delete_def user_exists_def)
  have h1: "user_history ?db1 u = filter (\<lambda>row. keyword row \<noteq> kw) (user_history db u)"
    by (rule user_history_delete)
  have h2: "user_history ?db2 u = filter (\<lambda>row. keyword row \<noteq> kw) (user_history db u) @ [?new]"
    using user_history_insert[OF ins] h1 by (simp add: search_history_delete_def)
  have sorted0: "sorted_wrt (<) (map created_at (user_history db u))"
    and dist0: "distinct (map search_history_row.id' (search_history db))"
    and le0: "\<forall>row \<in> set (search_history db). search_history_row.id' row \<le> search_history_seq db"
    using ok by (simp_all add: history_ok_def list_all_iff)
  have sorted2: "sorted_wrt (<) (map created_at (user_history ?db2 u))"
    unfolding h2 using sorted0 later
    by (auto simp: sorted_wrt_append intro: sorted_wrt_filter sorted_wrt_map_mono[unfolded sorted_wrt_map]
        simp: sorted_wrt_map sorted_wrt_filter)
  have rows2: "search_history ?db2 =
      filter (\<lambda>row. \<not> (search_history_row.username row = u \<and> keyword row = kw)) (search_history db) @ [?new]"
    by (simp add: search_history_delete_def)
  have dist2: "distinct (map search_history_row.id' (search_history ?db2))"
    unfolding rows2 using dist0 le0 by (auto simp: distinct_map_filter)
  have le2: "\<forall>row \<in> set (search_history ?db2). search_history_row.id' row \<le> search_history_seq ?db2"
    unfolding rows2 using le0 by (auto simp: search_history_delete_def)
  have h3: "user_history ?db3 u = last_n SEARCH_HISTORY_LIMIT (user_history ?db2 u)"
    by (rule user_history_trim[OF sorted2 dist2])
  have kw2: "map keyword (user_history ?db2 u) =
      filter (\<lambda>k. k \<noteq> kw) (map keyword (user_history db u)) @ [kw]"
    unfolding h2 by (simp add: filter_map comp_def)
  show "map keyword (user_history (final (addSearchHistory db now u kw)) u) =
           last_n 20 (filter (\<lambda>k. k \<noteq> kw) (map keyword (user_history db u)) @ [kw])"
    unfolding fin h3 kw2[symmetric]
    by (simp add: last_n_def SEARCH_HISTORY_LIMIT_def drop_map)
  have sub3: "set (search_history ?db3) \<subseteq> set (search_history ?db2)"
    by (auto simp: search_history_trim_def)
  have rows3: "search_history ?db3 =
      filter (\<lambda>row. \<not> (search_history_row.username row = u \<and>
          search_history_row.id' row \<notin> set (map search_history_row.id'
             (most_recent (search_history ?db2) u SEARCH_HISTORY_LIMIT)))) (search_history ?db2)"
    by (simp add: search_history_trim_def)
  have seq3: "search_history_seq ?db3 = search_history_seq ?db2"
    by (simp add: search_history_trim_def)
  have "sorted_wrt (<) (map created_at (user_history ?db3 u))"
    unfolding h3 last_n_def using sorted2 by (simp add: drop_map[symmetric] sorted_wrt_drop)
  moreover have "distinct (map search_history_row.id' (search_history ?db3))"
    unfolding rows3 using dist2 by (rule distinct_map_filter)
  moreover have "\<forall>row \<in> set (search_history ?db3). search_history_row.id' row \<le> search_history_seq ?db3"
    using sub3 le2 unfolding seq3 by blast
  ultimately show "history_ok (final (addSearchHistory db now u kw)) u"
    unfolding fin by (simp add: history_ok_def list_all_iff)
  have "\<forall>row \<in> set (user_history ?db2 u). created_at row \<le> now"
    unfolding h2 using later by auto
  moreover have "set (user_history ?db3 u) \<subseteq> set (user_history ?db2 u)"
    unfolding h3 last_n_def by (rule set_drop_subset)
  ultimately show "\<forall>row \<in> set (user_history (final (addSearchHistory db now u kw)) u). created_at row \<le> now"
    unfolding fin by blast
  show "user_exists (final (addSearchHistory db now u kw)) u"
    unfolding fin using ex
    by (simp add: user_exists_def search_history_trim_def search_history_delete_def)
qed

lemma getSearchHistory_ok:
  assumes "history_ok db u"
  shows "result (getSearchHistory db u) = Inr (take 20 (rev (map keyword (user_history db u))))"
proof -
  have "sorted_wrt (<) (map created_at (user_history db u))"
    using assms by (simp add: history_ok_def)
  then show ?thesis
    by (simp add: getSearchHistory_result most_recent_ok SEARCH_HISTORY_LIMIT_def
        take_rev_last_n[symmetric] rev_map take_map)
qed

lemma last_n_snoc:
  assumes "0 < n"
  shows "last_n n (last_n n xs @ [x]) = last_n n (xs @ [x])"
proof -
  have "Suc (length xs) - (length xs - n + n) + (length xs - n) = Suc (length xs) - n"
    using assms by arith
  then show ?thesis using assms by (auto simp: last_n_def)
qed

lemma last_n_length: "length (last_n n xs) = min n (length xs)"
  by (auto simp: last_n_def)

text \<open>A run of calls, each in a later second than the one before and than the rows stored.\<close>

lemma add_all_later:
  assumes "user_exists db u" and "history_ok db u"
    and "sorted_wrt (<) (map fst searches)"
    and "\<forall>row \<in> set (user_history db u). \<forall>t \<in> set (map fst searches). created_at row < t"
  shows "map keyword (user_history (add_all db u searches) u) =
           foldl (\<lambda>h kw. last_n 20 (filter (\<lambda>k. k \<noteq> kw) h @ [kw]))
             (map keyword (user_history db u)) (map snd searches) \<and>
         history_ok (add_all db u searches) u \<and> user_exists (add_all db u searches) u"
  using assms
proof (induction searches arbitrary: db)
  case Nil
  then show ?case by (simp add: add_all_def)
next
  case (Cons c searches)
  obtain now kw where c: "c = (now, kw)" by (cases c)
  let ?db' = "final (addSearchHistory db now u kw)"
  have later: "\<forall>row \<in> set (user_history db u). created_at row < now"
    using Cons.prems(4) c by simp
  note step = addSearchHistory_later[OF Cons.prems(1,2) later, of kw]
  have "\<forall>row \<in> set (user_history ?db' u). \<forall>t \<in> set (map fst searches). created_at row < t"
  proof (intro ballI)
    fix row t
    assume "row \<in> set (user_history ?db' u)" and t: "t \<in> set (map fst searches)"
    then have "created_at row \<le> now" using step(3) by blast
    moreover have "now < t" using Cons.prems(3) t c by auto
    ultimately show "created_at row < t" by simp
  qed
  moreover have "sorted_wrt (<) (map fst searches)" using Cons.prems(3) by simp
  ultimately have IH: "map keyword (user_history (add_all ?db' u searches) u) =
           foldl (\<lambda>h kw. last_n 20 (filter (\<lambda>k. k \<noteq> kw) h @ [kw]))
             (map keyword (user_history ?db' u)) (map snd searches) \<and>
         history_ok (add_all ?db' u searches) u \<and> user_exists (add_all ?db' u searches) u"
    using Cons.IH[OF step(4) step(2)] by blast
  have "add_all db u (c # searches) = add_all ?db' u searches"
    by (simp add: add_all_def c)
  then show ?case using IH step(1) by (simp add: c)
qed

lemma fold_distinct_keywords:
  assumes "distinct (pre @ ks)"
  shows "foldl (\<lambda>h kw. last_n 20 (filter (\<lambda>k. k \<noteq> kw) h @ [kw])) (last_n 20 pre) ks =
           last_n 20 (pre @ ks)"
  using assms
proof (induction ks arbitrary: pre)
  case Nil
  then show ?case by simp
next
  case (Cons k ks)
  have "k \<notin> set (last_n 20 pre)"
    using Cons.prems set_drop_subset[of "length pre - 20" pre] by (auto simp: last_n_def)
  then have "filter (\<lambda>x. x \<noteq> k) (last_n 20 pre) = last_n 20 pre"
    by (auto simp: filter_id_conv)
  then have "last_n 20 (filter (\<lambda>x. x \<noteq> k) (last_n 20 pre) @ [k]) = last_n 20 (pre @ [k])"
    by (simp add: last_n_snoc)
  moreover have "distinct ((pre @ [k]) @ ks)" using Cons.prems by simp
  ultimately show ?case using Cons.IH[of "pre @ [k]"] by simp
qed

text \<open>
  With the clock moving on between the calls, the history behaves as a list of the 20
  newest distinct keywords, newest first.
\<close>

lemma add_all_distinct_keywords:
  assumes "user_exists db u" and "history_ok db u" and "user_history db u = []"
    and "sorted_wrt (<) (map fst searches)" and "distinct (map snd searches)"
  shows "result (getSearchHistory (add_all db u searches) u) = Inr (take 20 (rev (map snd searches)))"
    and "length (user_history (add_all db u searches) u) = min 20 (length searches)"
proof -
  have all: "map keyword (user_history (add_all db u searches) u) =
           foldl (\<lambda>h kw. last_n 20 (filter (\<lambda>k. k \<noteq> kw) h @ [kw]))
             (map keyword (user_history db u)) (map snd searches)"
    and ok: "history_ok (add_all db u searches) u"
    using add_all_later[OF assms(1,2,4)] assms(3) by simp_all
  have "map keyword (user_history (add_all db u searches) u) = last_n 20 (map snd searches)"
    using all fold_distinct_keywords[of "[]" "map snd searches"] assms(3,5)
    by (simp add: last_n_def)
  then have kws: "map keyword (user_history (add_all db u searches) u) = last_n 20 (map snd searches)" .
  show "result (getSearchHistory (add_all db u searches) u) = Inr (take 20 (rev (map snd searches)))"
    unfolding getSearchHistory_ok[OF ok] kws
    by (simp add: take_rev_last_n last_n_def)
  have "length (map keyword (user_history (add_all db u searches) u)) = min 20 (length searches)"
    unfolding kws by (simp add: last_n_length)
  then show "length (user_history (add_all db u searches) u) = min 20 (length searches)" by simp
qed

lemma addSearchHistory_again:
  assumes "user_exists db u" and "history_ok db u"
    and "\<forall>row \<in> set (user_history db u). created_at row < now"
    and "kw \<in> set (map keyword (user_history db u))"
  shows "\<exists>rest. result (getSearchHistory (final (addSearchHistory db now u kw)) u) = Inr (kw # rest)"
    and "length (user_history (final (addSearchHistory db now u kw)) u) \<le> length (user_history db u)"
proof -
  note step = addSearchHistory_later[OF assms(1,2,3), of kw]
  let ?old = "map keyword (user_history db u)"
  have "take 20 (rev (last_n 20 (filter (\<lambda>k. k \<noteq> kw) ?old @ [kw]))) =
        kw # take 19 (rev (filter (\<lambda>k. k \<noteq> kw) ?old))"
    by (simp add: take_rev_last_n[symmetric])
  then show "\<exists>rest. result (getSearchHistory (final (addSearchHistory db now u kw)) u) = Inr (kw # rest)"
    unfolding getSearchHistory_ok[OF step(2)] step(1) by simp
  have "length (filter (\<lambda>k. k \<noteq> kw) ?old) < length ?old"
    using assms(4) by (intro length_filter_less[of kw]) simp_all
  then have "length (last_n 20 (filter (\<lambda>k. k \<noteq> kw) ?old @ [kw])) \<le> length ?old"
    by (simp add: last_n_length)
  then have "length (map keyword (user_history (final (addSearchHistory db now u kw)) u)) \<le> length ?old"
    unfolding step(1) .
  then show "length (user_history (final (addSearchHistory db now u kw)) u) \<le> length (user_history db u)"
    by simp
qed

text \<open>
  Claim C2, on calls that fall within one second. \<open>created_at\<close> counts seconds and is
  the only sort key, so rows of the same second come oldest first: of two keywords
  added in one second the older is returned first; a keyword added again in the second
  of the newest row stays behind it; and of 21 distinct keywords added in one second
  the trim deletes the one just inserted. The lemmas above show that the history is the
  20 newest keywords, newest first, when every call falls in a later second than the
  rows stored.
\<close>

theorem C2_adds_within_one_second:
  "result (getSearchHistory (add_all sample_db ''alice'' [(1000, ''a''), (1000, ''b'')]) ''alice'') =
     Inr [''a'', ''b''] \<and>
   result (getSearchHistory
             (add_all sample_db ''alice'' [(1000, ''a''), (1001, ''b''), (1001, ''a'')]) ''alice'') =
     Inr [''b'', ''a''] \<and>
   result (getSearchHistory
             (add_all sample_db ''alice'' (map (\<lambda>i. (1000, decimal i)) [1..<22])) ''alice'') =
     Inr (map decimal [1..<21])"
  by code_simp

subsection \<open>Reading the administrator's configuration\<close>

lemma stored_Cons:
  "stored ((n, v) # rows) k = (case stored rows k of None \<Rightarrow> (if k = n then Some v else None) | Some x \<Rightarrow> Some x)"
  by (simp add: stored_def map_add_def split: option.splits)

lemma parsed_names_iff:
  "n \<in> set parsed_names \<longleftrightarrow>
     n = ''config_subscription'' \<or> n = ''site_config'' \<or> n = ''source_config'' \<or>
     n = ''custom_categories'' \<or> n = ''live_config''"
  by (simp add: parsed_names_def)

lemma recognized_names_iff:
  "n \<in> set recognized_names \<longleftrightarrow> n = ''config_file'' \<or> n \<in> set parsed_names"
  by (simp add: recognized_names_def)

lemma overlay_config_file:
  "overlay J ((''config_file'', v) # rows) config = overlay J rows (config\<lparr>ConfigFile := v\<rparr>)"
  by simp

lemma overlay_config_subscription:
  "overlay J ((''config_subscription'', v) # rows) config =
     (case JSON_parse J v of
        Inl err \<Rightarrow> Inl err
      | Inr x \<Rightarrow> overlay J rows (config\<lparr>ConfigSubscribtion := x\<rparr>))"
  by simp

lemma overlay_site_config:
  "overlay J ((''site_config'', v) # rows) config =
     (case JSON_parse J v of
        Inl err \<Rightarrow> Inl err
      | Inr x \<Rightarrow> overlay J rows (config\<lparr>SiteConfig := x\<rparr>))"
  by simp

lemma overlay_discarded:
  assumes "n = ''source_config'' \<or> n = ''custom_categories'' \<or> n = ''live_config''"
  shows "overlay J ((n, v) # rows) config =
     (case JSON_parse J v of Inl err \<Rightarrow> Inl err | Inr x \<Rightarrow> overlay J rows config)"
  using assms by (elim disjE) simp_all

lemma overlay_other:
  assumes "n \<notin> set recognized_names"
  shows "overlay J ((n, v) # rows) config = overlay J rows config"
  using assms by (simp add: recognized_names_def parsed_names_def)

lemma six_cases:
  obtains "n = a" | "n = b" | "n = c" | "n = d \<or> n = e \<or> n = f" | "n \<notin> set [a, b, c, d, e, f]"
  by auto

lemma name_cases:
  obtains (blob) "n = ''config_file''"
    | (subscription) "n = ''config_subscription''"
    | (site) "n = ''site_config''"
    | (discarded) "n = ''source_config'' \<or> n = ''custom_categories'' \<or> n = ''live_config''"
    | (other) "n \<notin> set recognized_names"
proof (rule six_cases[where n = n and a = "''config_file''" and b = "''config_subscription''"
      and c = "''site_config''" and d = "''source_config''" and e = "''custom_categories''"
      and f = "''live_config''"])
  assume "n = ''config_file''"
  then show thesis by (rule blob)
next
  assume "n = ''config_subscription''"
  then show thesis by (rule subscription)
next
  assume "n = ''site_config''"
  then show thesis by (rule site)
next
  assume "n = ''source_config'' \<or> n = ''custom_categories'' \<or> n = ''live_config''"
  then show thesis by (rule discarded)
next
  assume "n \<notin> set [''config_file'', ''config_subscription'', ''site_config'', ''source_config'',
     ''custom_categories'', ''live_config'']"
  then have "n \<notin> set recognized_names"
    unfolding recognized_names_def parsed_names_def .
  then show thesis by (rule other)
qed

lemma decodes_parsed:
  assumes "decodes J (n, v)" and "n \<in> set parsed_names"
  obtains x where "JSON_parse J v = Inr x"
  using assms by (cases "JSON_parse J v") (simp_all add: decodes_def)

lemma stored_Cons_same:
  "stored ((n, v) # rows) n = (case stored rows n of None \<Rightarrow> Some v | Some x \<Rightarrow> Some x)"
  by (simp add: stored_def map_add_def split: option.splits)

lemma stored_Cons_other:
  assumes "k \<noteq> n"
  shows "stored ((n, v) # rows) k = stored rows k"
  using assms by (simp add: stored_def map_add_def split: option.splits)

lemma overlaid_Cons_same:
  assumes "JSON_parse J v = Inr x"
  shows "overlaid J ((n, v) # rows) n d = overlaid J rows n x"
  using assms by (simp add: overlaid_def stored_Cons_same split: option.splits)

lemma overlaid_Cons_other:
  assumes "k \<noteq> n"
  shows "overlaid J ((n, v) # rows) k d = overlaid J rows k d"
  using assms by (simp add: overlaid_def stored_Cons_other)

lemma overlay_ok:
  assumes "list_all (decodes J) rows"
  shows "\<exists>subscription site.
     overlaid J rows ''config_subscription'' (ConfigSubscribtion config) = Inr subscription \<and>
     overlaid J rows ''site_config'' (SiteConfig config) = Inr site \<and>
     overlay J rows config =
       Inr (config\<lparr>ConfigFile := (case stored rows ''config_file'' of None \<Rightarrow> ConfigFile config | Some v \<Rightarrow> v),
                  ConfigSubscribtion := subscription,
                  SiteConfig := site\<rparr>)"
  using assms
proof (induction rows arbitrary: config)
  case Nil
  then show ?case by (simp add: stored_def overlaid_def)
next
  case (Cons row rows)
  obtain n v where row: "row = (n, v)" by (cases row)
  have rest: "list_all (decodes J) rows" using Cons.prems by simp
  have dec: "decodes J (n, v)" using Cons.prems row by simp
  show ?case
  proof (cases n rule: name_cases)
    case blob
    have "\<exists>subscription site.
        overlaid J rows ''config_subscription'' (ConfigSubscribtion (config\<lparr>ConfigFile := v\<rparr>)) = Inr subscription \<and>
        overlaid J rows ''site_config'' (SiteConfig (config\<lparr>ConfigFile := v\<rparr>)) = Inr site \<and>
        overlay J rows (config\<lparr>ConfigFile := v\<rparr>) =
          Inr ((config\<lparr>ConfigFile := v\<rparr>)\<lparr>ConfigFile := (case stored rows ''config_file'' of None \<Rightarrow> ConfigFile (config\<lparr>ConfigFile := v\<rparr>) | Some v \<Rightarrow> v),
                  ConfigSubscribtion := subscription, SiteConfig := site\<rparr>)"
      by (rule Cons.IH[OF rest])
    then obtain sub st where
      o1: "overlaid J rows ''config_subscription'' (ConfigSubscribtion (config\<lparr>ConfigFile := v\<rparr>)) = Inr sub" and
      o2: "overlaid J rows ''site_config'' (SiteConfig (config\<lparr>ConfigFile := v\<rparr>)) = Inr st" and
      o3: "overlay J rows (config\<lparr>ConfigFile := v\<rparr>) =
         Inr ((config\<lparr>ConfigFile := v\<rparr>)\<lparr>ConfigFile := (case stored rows ''config_file'' of None \<Rightarrow> ConfigFile (config\<lparr>ConfigFile := v\<rparr>) | Some v \<Rightarrow> v),
                 ConfigSubscribtion := sub, SiteConfig := st\<rparr>)"
      by (elim exE conjE) (rule that; assumption)
    show ?thesis unfolding row blob overlay_config_file
      by (rule exI[of _ sub], rule exI[of _ st])
         (use o1 o2 o3 in \<open>simp add: overlaid_Cons_other stored_Cons_same split: option.splits\<close>)
  next
    case subscription
    have "n \<in> set parsed_names" unfolding subscription by (simp add: parsed_names_def)
    with dec obtain x where x: "JSON_parse J v = Inr x" by (rule decodes_parsed)
    have "\<exists>subscription site.
        overlaid J rows ''config_subscription'' (ConfigSubscribtion (config\<lparr>ConfigSubscribtion := x\<rparr>)) = Inr subscription \<and>
        overlaid J rows ''site_config'' (SiteConfig (config\<lparr>ConfigSubscribtion := x\<rparr>)) = Inr site \<and>
        overlay J rows (config\<lparr>ConfigSubscribtion := x\<rparr>) =
          Inr ((config\<lparr>ConfigSubscribtion := x\<rparr>)\<lparr>ConfigFile := (case stored rows ''config_file'' of None \<Rightarrow> ConfigFile (config\<lparr>ConfigSubscribtion := x\<rparr>) | Some v \<Rightarrow> v),
                  ConfigSubscribtion := subscription, SiteConfig := site\<rparr>)"
      by (rule Cons.IH[OF rest])
    then obtain sub st where
      o1: "overlaid J rows ''config_subscription'' (ConfigSubscribtion (config\<lparr>ConfigSubscribtion := x\<rparr>)) = Inr sub" and
      o2: "overlaid J rows ''site_config'' (SiteConfig (config\<lparr>ConfigSubscribtion := x\<rparr>)) = Inr st" and
      o3: "overlay J rows (config\<lparr>ConfigSubscribtion := x\<rparr>) =
         Inr ((config\<lparr>ConfigSubscribtion := x\<rparr>)\<lparr>ConfigFile := (case stored rows ''config_file'' of None \<Rightarrow> ConfigFile (config\<lparr>ConfigSubscribtion := x\<rparr>) | Some v \<Rightarrow> v),
                 ConfigSubscribtion := sub, SiteConfig := st\<rparr>)"
      by (elim exE conjE) (rule that; assumption)
    show ?thesis unfolding row subscription overlay_config_subscription x
      by (rule exI[of _ sub], rule exI[of _ st])
         (use o1 o2 o3 in \<open>simp add: overlaid_Cons_other overlaid_Cons_same[OF x] stored_Cons_other
            split: option.splits\<close>)
  next
    case site
    have "n \<in> set parsed_names" unfolding site by (simp add: parsed_names_def)
    with dec obtain x where x: "JSON_parse J v = Inr x" by (rule decodes_parsed)
    have "\<exists>subscription site.
        overlaid J rows ''config_subscription'' (ConfigSubscribtion (config\<lparr>SiteConfig := x\<rparr>)) = Inr subscription \<and>
        overlaid J rows ''site_config'' (SiteConfig (config\<lparr>SiteConfig := x\<rparr>)) = Inr site \<and>
        overlay J rows (config\<lparr>SiteConfig := x\<rparr>) =
          Inr ((config\<lparr>SiteConfig := x\<rparr>)\<lparr>ConfigFile := (case stored rows ''config_file'' of None \<Rightarrow> ConfigFile (config\<lparr>SiteConfig := x\<rparr>) | Some v \<Rightarrow> v),
                  ConfigSubscribtion := subscription, SiteConfig := site\<rparr>)"
      by (rule Cons.IH[OF rest])
    then obtain sub st where
      o1: "overlaid J rows ''config_subscription'' (ConfigSubscribtion (config\<lparr>SiteConfig := x\<rparr>)) = Inr sub" and
      o2: "overlaid J rows ''site_config'' (SiteConfig (config\<lparr>SiteConfig := x\<rparr>)) = Inr st" and
      o3: "overlay J rows (config\<lparr>SiteConfig := x\<rparr>) =
         Inr ((config\<lparr>SiteConfig := x\<rparr>)\<lparr>ConfigFile := (case stored rows ''config_file'' of None \<Rightarrow> ConfigFile (config\<lparr>SiteConfig := x\<rparr>) | Some v \<Rightarrow> v),
                 ConfigSubscribtion := sub, SiteConfig := st\<rparr>)"
      by (elim exE conjE) (rule that; assumption)
    show ?thesis unfolding row site overlay_site_config x
      by (rule exI[of _ sub], rule exI[of _ st])
         (use o1 o2 o3 in \<open>simp add: overlaid_Cons_other overlaid_Cons_same[OF x] stored_Cons_other
            split: option.splits\<close>)
  next
    case discarded
    have "n \<in> set parsed_names" using discarded by (elim disjE) (simp_all add: parsed_names_def)
    with dec obtain x where x: "JSON_parse J v = Inr x" by (rule decodes_parsed)
    have ne: "''config_file'' \<noteq> n" "''config_subscription'' \<noteq> n" "''site_config'' \<noteq> n"
      using discarded by (elim disjE; simp)+
    have "\<exists>subscription site.
        overlaid J rows ''config_subscription'' (ConfigSubscribtion config) = Inr subscription \<and>
        overlaid J rows ''site_config'' (SiteConfig config) = Inr site \<and>
        overlay J rows config =
          Inr (config\<lparr>ConfigFile := (case stored rows ''config_file'' of None \<Rightarrow> ConfigFile config | Some v \<Rightarrow> v),
                  ConfigSubscribtion := subscription, SiteConfig := site\<rparr>)"
      by (rule Cons.IH[OF rest])
    then obtain sub st where
      o1: "overlaid J rows ''config_subscription'' (ConfigSubscribtion config) = Inr sub" and
      o2: "overlaid J rows ''site_config'' (SiteConfig config) = Inr st" and
      o3: "overlay J rows config =
         Inr (config\<lparr>ConfigFile := (case stored rows ''config_file'' of None \<Rightarrow> ConfigFile config | Some v \<Rightarrow> v),
                 ConfigSubscribtion := sub, SiteConfig := st\<rparr>)"
      by (elim exE conjE) (rule that; assumption)
    show ?thesis unfolding row overlay_discarded[OF discarded] x
      by (rule exI[of _ sub], rule exI[of _ st])
         (use o1 o2 o3 in \<open>simp add: overlaid_Cons_other[OF ne(2)] overlaid_Cons_other[OF ne(3)]
            stored_Cons_other[OF ne(1)] split: option.splits\<close>)
  next
    case other
    have ne: "''config_file'' \<noteq> n" "''config_subscription'' \<noteq> n" "''site_config'' \<noteq> n"
      using other by (simp_all add: recognized_names_def parsed_names_def) metis+
    have "\<exists>subscription site.
        overlaid J rows ''config_subscription'' (ConfigSubscribtion config) = Inr subscription \<and>
        overlaid J rows ''site_config'' (SiteConfig config) = Inr site \<and>
        overlay J rows config =
          Inr (config\<lparr>ConfigFile := (case stored rows ''config_file'' of None \<Rightarrow> ConfigFile config | Some v \<Rightarrow> v),
                  ConfigSubscribtion := subscription, SiteConfig := site\<rparr>)"
      by (rule Cons.IH[OF rest])
    then obtain sub st where
      o1: "overlaid J rows ''config_subscription'' (ConfigSubscribtion config) = Inr sub" and
      o2: "overlaid J rows ''site_config'' (SiteConfig config) = Inr st" and
      o3: "overlay J rows config =
         Inr (config\<lparr>ConfigFile := (case stored rows ''config_file'' of None \<Rightarrow> ConfigFile config | Some v \<Rightarrow> v),
                 ConfigSubscribtion := sub, SiteConfig := st\<rparr>)"
      by (elim exE conjE) (rule that; assumption)
    show ?thesis unfolding row overlay_other[OF other]
      by (rule exI[of _ sub], rule exI[of _ st])
         (use o1 o2 o3 in \<open>simp add: overlaid_Cons_other[OF ne(2)] overlaid_Cons_other[OF ne(3)]
            stored_Cons_other[OF ne(1)] split: option.splits\<close>)
  qed
qed

lemma overlay_fail:
  assumes "\<not> list_all (decodes J) rows"
  shows "\<exists>err. overlay J rows config = Inl err"
  using assms
proof (induction rows arbitrary: config)
  case Nil
  then show ?case by simp
next
  case (Cons row rows)
  obtain n v where row: "row = (n, v)" by (cases row)
  show ?case
  proof (cases "decodes J (n, v)")
    case True
    then have "\<not> list_all (decodes J) rows" using Cons.prems row by simp
    then have IH: "\<And>config. \<exists>err. overlay J rows config = Inl err" by (rule Cons.IH)
    show ?thesis
    proof (cases n rule: name_cases)
      case blob
      show ?thesis unfolding row blob overlay_config_file by (rule IH)
    next
      case subscription
      show ?thesis unfolding row subscription overlay_config_subscription
        using IH by (cases "JSON_parse J v") simp_all
    next
      case site
      show ?thesis unfolding row site overlay_site_config
        using IH by (cases "JSON_parse J v") simp_all
    next
      case discarded
      show ?thesis unfolding row overlay_discarded[OF discarded]
        using IH by (cases "JSON_parse J v") simp_all
    next
      case other
      show ?thesis unfolding row overlay_other[OF other] by (rule IH)
    qed
  next
    case False
    then have n: "n \<in> set parsed_names"
      by (simp add: decodes_def)
    from False obtain err where err: "JSON_parse J v = Inl err"
      by (cases "JSON_parse J v") (simp_all add: decodes_def)
    from n have "n = ''config_subscription'' \<or> n = ''site_config'' \<or>
       (n = ''source_config'' \<or> n = ''custom_categories'' \<or> n = ''live_config'')"
      by (simp add: parsed_names_def)
    then show ?thesis
    proof (elim disjE, goal_cases)
      case 1
      show ?case unfolding row 1 overlay_config_subscription err by simp
    next
      case 2
      show ?case unfolding row 2 overlay_site_config err by simp
    next
      case 3
      then have d: "n = ''source_config'' \<or> n = ''custom_categories'' \<or> n = ''live_config''" by simp
      show ?case unfolding row overlay_discarded[OF d] err by simp
    next
      case 4
      then have d: "n = ''source_config'' \<or> n = ''custom_categories'' \<or> n = ''live_config''" by simp
      show ?case unfolding row overlay_discarded[OF d] err by simp
    next
      case 5
      then have d: "n = ''source_config'' \<or> n = ''custom_categories'' \<or> n = ''live_config''" by simp
      show ?case unfolding row overlay_discarded[OF d] err by simp
    qed
  qed
qed

lemma overlay_ignores:
  "overlay J (filter (\<lambda>(n, v). n \<in> set recognized_names) rows) config = overlay J rows config"
proof (induction rows arbitrary: config)
  case Nil
  show ?case by simp
next
  case (Cons row rows)
  obtain n v where row: "row = (n, v)" by (cases row)
  show ?case
  proof (cases "n \<in> set recognized_names")
    case False
    then have drop: "filter (\<lambda>(n, v). n \<in> set recognized_names) ((n, v) # rows) =
        filter (\<lambda>(n, v). n \<in> set recognized_names) rows"
      by simp
    show ?thesis unfolding row drop overlay_other[OF False] by (rule Cons.IH)
  next
    case True
    then have keep: "filter (\<lambda>(n, v). n \<in> set recognized_names) ((n, v) # rows) =
        (n, v) # filter (\<lambda>(n, v). n \<in> set recognized_names) rows"
      by simp
    show ?thesis
    proof (cases n rule: name_cases)
      case blob
      show ?thesis unfolding row keep unfolding blob overlay_config_file by (rule Cons.IH)
    next
      case subscription
      show ?thesis unfolding row keep unfolding subscription overlay_config_subscription
        by (cases "JSON_parse J v") (simp_all only: sum.case Cons.IH)
    next
      case site
      show ?thesis unfolding row keep unfolding site overlay_site_config
        by (cases "JSON_parse J v") (simp_all only: sum.case Cons.IH)
    next
      case discarded
      show ?thesis unfolding row keep unfolding overlay_discarded[OF discarded]
        by (cases "JSON_parse J v") (simp_all only: sum.case Cons.IH)
    next
      case other
      with True show ?thesis by simp
    qed
  qed
qed

lemma getAllUsers_result:
  "result (getAllUsers J db withPassword) = Inr (map (user_of_row J withPassword) (users db))"
  "final (getAllUsers J db withPassword) = db"
  unfolding getAllUsers_def by (simp_all add: withRetry_read_only)

lemma getAllUserGroups_result:
  "result (getAllUserGroups J db) =
     Inr (map (\<lambda>(n, v).
            \<lparr>UserGroup.name = Some (String n),
             enabledApis = Some (case JSON_parse J v of Inl err \<Rightarrow> JArr [] | Inr x \<Rightarrow> x)\<rparr>)
          (user_groups db))"
  "final (getAllUserGroups J db) = db"
  unfolding getAllUserGroups_def by (simp_all add: withRetry_read_only)

lemma getAllApiSources_final: "final (getAllApiSources db) = db"
  unfolding getAllApiSources_def by (simp add: withRetry_read_only)

lemma getAllLiveSources_final: "final (getAllLiveSources db) = db"
  unfolding getAllLiveSources_def by (simp add: withRetry_read_only)

lemma getAllCategories_final: "final (getAllCategories db) = db"
  unfolding getAllCategories_def by (simp add: withRetry_read_only)

lemma getAllApiSources_Inr: "\<exists>xs. result (getAllApiSources db) = Inr xs"
  unfolding getAllApiSources_def by (simp add: withRetry_read_only)

lemma getAllLiveSources_Inr: "\<exists>xs. result (getAllLiveSources db) = Inr xs"
  unfolding getAllLiveSources_def by (simp add: withRetry_read_only)

lemma getAllCategories_Inr: "\<exists>xs. result (getAllCategories db) = Inr xs"
  unfolding getAllCategories_def by (simp add: withRetry_read_only)

text \<open>The configuration \<open>getAdminConfig\<close> assembles once the rows were laid over the defaults.\<close>

lemma getAdminConfig_assembled:
  assumes "overlay J (admin_config db) (default_config e) = Inr config"
    and "result (getAllApiSources db) = Inr sources"
    and "result (getAllLiveSources db) = Inr lives"
    and "result (getAllCategories db) = Inr cats"
  shows "getAdminConfig J e db =
     Outcome (Inr (Some (config\<lparr>UserConfig :=
                          \<lparr>Users = map (user_of_row J False) (users db),
                           Tags = Some (map (\<lambda>(n, v).
                              \<lparr>UserGroup.name = Some (String n),
                               enabledApis = Some (case JSON_parse J v of Inl err \<Rightarrow> JArr [] | Inr x \<Rightarrow> x)\<rparr>)
                              (user_groups db))\<rparr>,
                        SourceConfig := sources,
                        LiveConfig := Some lives,
                        CustomCategories := cats\<rparr>))) db 1 []"
  unfolding getAdminConfig_def withRetry_async_def await_def
  using assms
  by (simp add: getAllUsers_result getAllUserGroups_result getAllApiSources_final
      getAllLiveSources_final getAllCategories_final)

lemma getAdminConfig_null:
  assumes "overlay J (admin_config db) (default_config e) = Inl err"
  shows "getAdminConfig J e db = Outcome (Inr None) db 1 []"
  unfolding getAdminConfig_def withRetry_async_def using assms by simp

text \<open>
  Claim C6, as amended. \<open>getAdminConfig\<close> has a branch for six names. When every row
  under one of the five parsed names decodes, it returns a configuration whose config
  file is the stored \<open>config_file\<close> text (never parsed) or empty, whose subscription and
  site settings are the decoded \<open>config_subscription\<close> and \<open>site_config\<close> rows or the
  defaults, and whose five collections are read from their tables. When one such row
  does not decode, also one stored under \<open>source_config\<close>, \<open>custom_categories\<close> or
  \<open>live_config\<close>, it returns null. Rows under any other name change nothing, and the
  store is as before.
\<close>

theorem C6_getAdminConfig_read:
  "(if list_all (decodes J) (admin_config db)
    then \<exists>config.
           result (getAdminConfig J e db) = Inr (Some config) \<and>
           ConfigFile config =
             (case stored (admin_config db) ''config_file'' of None \<Rightarrow> [] | Some v \<Rightarrow> v) \<and>
           Inr (ConfigSubscribtion config) =
             overlaid J (admin_config db) ''config_subscription'' (ConfigSubscribtion (default_config e)) \<and>
           Inr (SiteConfig config) =
             overlaid J (admin_config db) ''site_config'' (SiteConfig (default_config e)) \<and>
           result (getAllUsers J db False) = Inr (Users (UserConfig config)) \<and>
           map_sum id Some (result (getAllUserGroups J db)) = Inr (Tags (UserConfig config)) \<and>
           result (getAllApiSources db) = Inr (SourceConfig config) \<and>
           map_sum id Some (result (getAllLiveSources db)) = Inr (LiveConfig config) \<and>
           result (getAllCategories db) = Inr (CustomCategories config)
    else result (getAdminConfig J e db) = Inr None) \<and>
   result (getAdminConfig J e
             (db\<lparr>admin_config := filter (\<lambda>(n, v). n \<in> set recognized_names) (admin_config db)\<rparr>)) =
     result (getAdminConfig J e db) \<and>
   final (getAdminConfig J e db) = db"
proof -
  obtain sources where s: "result (getAllApiSources db) = Inr sources"
    using getAllApiSources_Inr by blast
  obtain lives where l: "result (getAllLiveSources db) = Inr lives"
    using getAllLiveSources_Inr by blast
  obtain cats where c: "result (getAllCategories db) = Inr cats"
    using getAllCategories_Inr by blast
  let ?rows = "admin_config db"
  let ?db' = "db\<lparr>admin_config := filter (\<lambda>(n, v). n \<in> set recognized_names) ?rows\<rparr>"
  have same: "overlay J (admin_config ?db') (default_config e) = overlay J ?rows (default_config e)"
    by (simp add: overlay_ignores)
  have s': "result (getAllApiSources ?db') = Inr sources"
    using s unfolding getAllApiSources_def by (simp add: withRetry_read_only)
  have l': "result (getAllLiveSources ?db') = Inr lives"
    using l unfolding getAllLiveSources_def by (simp add: withRetry_read_only)
  have c': "result (getAllCategories ?db') = Inr cats"
    using c unfolding getAllCategories_def by (simp add: withRetry_read_only)
  have fin: "final (getAdminConfig J e db) = db"
    by (cases "overlay J ?rows (default_config e)")
       (simp_all add: getAdminConfig_null getAdminConfig_assembled[OF _ s l c])
  have ign: "result (getAdminConfig J e ?db') = result (getAdminConfig J e db)"
  proof (cases "overlay J ?rows (default_config e)")
    case (Inl err)
    then show ?thesis using same by (simp add: getAdminConfig_null)
  next
    case (Inr config)
    then have "overlay J (admin_config ?db') (default_config e) = Inr config" using same by simp
    then show ?thesis
      by (simp add: getAdminConfig_assembled[OF Inr s l c] getAdminConfig_assembled[OF _ s' l' c'])
  qed
  have main: "if list_all (decodes J) ?rows
    then \<exists>config.
           result (getAdminConfig J e db) = Inr (Some config) \<and>
           ConfigFile config = (case stored ?rows ''config_file'' of None \<Rightarrow> [] | Some v \<Rightarrow> v) \<and>
           Inr (ConfigSubscribtion config) =
             overlaid J ?rows ''config_subscription'' (ConfigSubscribtion (default_config e)) \<and>
           Inr (SiteConfig config) =
             overlaid J ?rows ''site_config'' (SiteConfig (default_config e)) \<and>
           result (getAllUsers J db False) = Inr (Users (UserConfig config)) \<and>
           map_sum id Some (result (getAllUserGroups J db)) = Inr (Tags (UserConfig config)) \<and>
           result (getAllApiSources db) = Inr (SourceConfig config) \<and>
           map_sum id Some (result (getAllLiveSources db)) = Inr (LiveConfig config) \<and>
           result (getAllCategories db) = Inr (CustomCategories config)
    else result (getAdminConfig J e db) = Inr None"
  proof (cases "list_all (decodes J) ?rows")
    case True
    obtain sub st where
      o1: "overlaid J ?rows ''config_subscription'' (ConfigSubscribtion (default_config e)) = Inr sub" and
      o2: "overlaid J ?rows ''site_config'' (SiteConfig (default_config e)) = Inr st" and
      o3: "overlay J ?rows (default_config e) =
         Inr ((default_config e)\<lparr>ConfigFile := (case stored ?rows ''config_file'' of
                                     None \<Rightarrow> ConfigFile (default_config e) | Some v \<Rightarrow> v),
                 ConfigSubscribtion := sub, SiteConfig := st\<rparr>)"
      using overlay_ok[OF True, of "default_config e"] by (elim exE conjE) (rule that; assumption)
    have df: "ConfigFile (default_config e) = []" by (simp add: default_config_def)
    show ?thesis
      using True o1 o2 s l c
      by (simp add: getAdminConfig_assembled[OF o3 s l c] getAllUsers_result getAllUserGroups_result df
          split: option.splits)
  next
    case False
    then obtain err where "overlay J ?rows (default_config e) = Inl err"
      using overlay_fail by blast
    then show ?thesis using False by (simp add: getAdminConfig_null)
  qed
  show ?thesis using main ign fin by (intro conjI)
qed

theorem C6_getAdminConfig_read_witness:
  "list_all (decodes reference_runtime) (admin_config settings_db) \<and>
   (\<exists>config. result (getAdminConfig reference_runtime no_env settings_db) = Inr (Some config) \<and>
      ConfigFile config = ''{ not parsed }'' \<and>
      SiteConfig config = JObj [(''SiteName'', JStr ''Mine'')] \<and>
      ConfigSubscribtion config = ConfigSubscribtion (default_config no_env)) \<and>
   \<not> list_all (decodes reference_runtime) (admin_config legacy_db) \<and>
   result (getAdminConfig reference_runtime no_env legacy_db) = Inr None"
proof -
  have d: "list_all (decodes reference_runtime) (admin_config settings_db)" by code_simp
  have nd: "\<not> list_all (decodes reference_runtime) (admin_config legacy_db)" by code_simp
  have f: "(case stored (admin_config settings_db) ''config_file'' of None \<Rightarrow> [] | Some v \<Rightarrow> v) =
      ''{ not parsed }''"
    by code_simp
  have s: "overlaid reference_runtime (admin_config settings_db) ''site_config''
       (SiteConfig (default_config no_env)) = Inr (JObj [(''SiteName'', JStr ''Mine'')])"
    by code_simp
  have c: "overlaid reference_runtime (admin_config settings_db) ''config_subscription''
       (ConfigSubscribtion (default_config no_env)) = Inr (ConfigSubscribtion (default_config no_env))"
    by code_simp
  have "\<exists>config.
           result (getAdminConfig reference_runtime no_env settings_db) = Inr (Some config) \<and>
           ConfigFile config =
             (case stored (admin_config settings_db) ''config_file'' of None \<Rightarrow> [] | Some v \<Rightarrow> v) \<and>
           Inr (ConfigSubscribtion config) =
             overlaid reference_runtime (admin_config settings_db) ''config_subscription''
               (ConfigSubscribtion (default_config no_env)) \<and>
           Inr (SiteConfig config) =
             overlaid reference_runtime (admin_config settings_db) ''site_config''
               (SiteConfig (default_config no_env)) \<and>
           result (getAllUsers reference_runtime settings_db False) = Inr (Users (UserConfig config)) \<and>
           map_sum id Some (result (getAllUserGroups reference_runtime settings_db)) =
             Inr (Tags (UserConfig config)) \<and>
           result (getAllApiSources settings_db) = Inr (SourceConfig config) \<and>
           map_sum id Some (result (getAllLiveSources settings_db)) = Inr (LiveConfig config) \<and>
           result (getAllCategories settings_db) = Inr (CustomCategories config)"
    using C6_getAdminConfig_read[of reference_runtime settings_db no_env, THEN conjunct1]
    by (simp only: d if_True)
  then obtain config where "result (getAdminConfig reference_runtime no_env settings_db) = Inr (Some config)"
    and "ConfigFile config =
           (case stored (admin_config settings_db) ''config_file'' of None \<Rightarrow> [] | Some v \<Rightarrow> v)"
    and "Inr (ConfigSubscribtion config) =
           overlaid reference_runtime (admin_config settings_db) ''config_subscription''
             (ConfigSubscribtion (default_config no_env))"
    and "Inr (SiteConfig config) =
           overlaid reference_runtime (admin_config settings_db) ''site_config''
             (SiteConfig (default_config no_env))"
    by (elim exE conjE) (rule that)
  then have "\<exists>config. result (getAdminConfig reference_runtime no_env settings_db) = Inr (Some config) \<and>
      ConfigFile config = ''{ not parsed }'' \<and>
      SiteConfig config = JObj [(''SiteName'', JStr ''Mine'')] \<and>
      ConfigSubscribtion config = ConfigSubscribtion (default_config no_env)"
    unfolding f s c by (intro exI[of _ config]) simp
  moreover have "result (getAdminConfig reference_runtime no_env legacy_db) = Inr None"
    using C6_getAdminConfig_read[of reference_runtime legacy_db no_env, THEN conjunct1]
    by (simp only: nd if_False)
  ultimately show ?thesis using d nd by (intro conjI)
qed

text \<open>
  The claim as stated fails: a row under \<open>source_config\<close>, which is none of the three
  settings rows, is not ignored; when it does not decode the read returns null.
\<close>

theorem C6_unrecognized_key_counterexample:
  "admin_config sample_db = [] \<and>
   admin_config legacy_db = [(''source_config'', ''{'')] \<and>
   legacy_db = sample_db\<lparr>admin_config := [(''source_config'', ''{'')]\<rparr> \<and>
   result (getAdminConfig reference_runtime no_env legacy_db) = Inr None \<and>
   result (getAdminConfig reference_runtime no_env sample_db) \<noteq> Inr None"
  by code_simp

subsection \<open>Writing the administrator's configuration\<close>











subsubsection \<open>Live sources\<close>





subsubsection \<open>Categories\<close>





subsubsection \<open>User groups\<close>





subsubsection \<open>Users\<close>






subsubsection \<open>The settings rows\<close>



lemma decodes_upsert:
  assumes "list_all (decodes J) rows" and "decodes J (n, v)"
  shows "list_all (decodes J) (filter (\<lambda>(n', v'). n' \<noteq> n) rows @ [(n, v)])"
  using assms by (simp add: list_all_iff)










end
